theory Spec2Isabelle
  imports Main "HOL-Library.AList"
begin

section \<open>Chasm: tracking, sharing and restore coordinator (util.go)\<close>

text \<open>
  A shallow embedding of \<^verbatim>\<open>util.go\<close>. The process-wide variable \<^verbatim>\<open>preferences\<close>, the
  local file system, the contents of the cloud stores and everything the code prints or
  calls are fields of one explicit state, the \<open>world\<close>, which every operation takes and
  returns. Go strings and byte slices are both \<open>string\<close> (a list of 8-bit characters).
  Go maps are association lists: \<^verbatim>\<open>m[k] = v\<close> is \<open>AList.update\<close>, \<^verbatim>\<open>delete(m, k)\<close> is
  \<open>AList.delete\<close>, a lookup is \<open>map_of\<close>, and a \<^verbatim>\<open>range\<close> loop visits the entries in the
  order of the list. Go leaves that order unspecified, so theorems are stated for every
  list. Maps are taken as allocated (the code allocates them in
  \<^verbatim>\<open>CreateOrLoadChasmDir\<close>); the panic of a write into a nil map is outside the model.
\<close>

subsection \<open>Paths (Go's path and path/filepath on a slash-separated system)\<close>

type_synonym bytes = string

definition slash :: char where
  "slash = CHR ''/''"

fun split_slash :: "string \<Rightarrow> string \<Rightarrow> string list" where
  "split_slash acc [] = [acc]"
| "split_slash acc (c # cs) =
     (if c = slash then acc # split_slash [] cs else split_slash (acc @ [c]) cs)"

fun join_slash :: "string list \<Rightarrow> string" where
  "join_slash [] = []"
| "join_slash [x] = x"
| "join_slash (x # y # ys) = x @ [slash] @ join_slash (y # ys)"

text \<open>
  One step of \<^verbatim>\<open>path.Clean\<close> on the stack of elements written so far (top first): empty
  and \<^verbatim>\<open>.\<close> elements are dropped, \<^verbatim>\<open>..\<close> removes the element before it, is dropped at the
  root of a rooted path and is kept at the start of a relative one.
\<close>

definition clean_step :: "bool \<Rightarrow> string list \<Rightarrow> string \<Rightarrow> string list" where
  "clean_step rooted stack seg =
     (if seg = [] \<or> seg = ''.'' then stack
      else if seg = ''..'' then
        (case stack of
           [] \<Rightarrow> (if rooted then [] else [''..''])
         | t # rest \<Rightarrow> (if t = ''..'' then ''..'' # stack else rest))
      else seg # stack)"

definition path_Clean :: "string \<Rightarrow> string" where
  "path_Clean p =
     (if p = [] then ''.''
      else
        (let rooted = (hd p = slash);
             out = rev (foldl (clean_step rooted) [] (split_slash [] p))
         in if rooted then slash # join_slash out
            else if out = [] then ''.'' else join_slash out))"

text \<open>\<^verbatim>\<open>path.Split\<close>: the path up to and including its last slash, and what follows it.\<close>

definition path_Split :: "string \<Rightarrow> string \<times> string" where
  "path_Split p =
     (let file = rev (takeWhile (\<lambda>c. c \<noteq> slash) (rev p))
      in (take (length p - length file) p, file))"

text \<open>\<^verbatim>\<open>path.Join\<close>: leading empty elements are ignored, the rest is joined and cleaned.\<close>

definition path_Join :: "string list \<Rightarrow> string" where
  "path_Join elems =
     (case dropWhile (\<lambda>e. e = []) elems of
        [] \<Rightarrow> []
      | e # es \<Rightarrow> path_Clean (join_slash (e # es)))"

text \<open>\<^verbatim>\<open>filepath.Base\<close>: the last element of the path, trailing slashes removed first.\<close>

definition filepath_Base :: "string \<Rightarrow> string" where
  "filepath_Base p =
     (if p = [] then ''.''
      else
        (let q = rev (dropWhile (\<lambda>c. c = slash) (rev p));
             b = rev (takeWhile (\<lambda>c. c \<noteq> slash) (rev q))
         in if b = [] then [slash] else b))"

subsection \<open>Types of the coordinator\<close>

type_synonym ShareID = string

text \<open>
  Modelled from the spec: \<^verbatim>\<open>Share\<close>, \<^verbatim>\<open>FolderStore\<close> and \<^verbatim>\<open>GDriveStore\<close> are declared
  outside \<^verbatim>\<open>util.go\<close>. A share is an identifier with raw bytes (the fields \<^verbatim>\<open>SID\<close> and
  \<^verbatim>\<open>Data\<close> the code writes); a store configuration is identified by its name.
\<close>

datatype Share = Share (share_SID: ShareID) (Data: bytes)

type_synonym FolderStore = string
type_synonym GDriveStore = string

datatype CloudStore = FolderCS FolderStore | GDriveCS GDriveStore

record FileShare =
  SID :: ShareID
  Hash :: string

record ChasmPref =
  root :: string
  FolderStores :: "FolderStore list"
  GDriveStores :: "GDriveStore list"
  FileMap :: "(string \<times> FileShare) list"
  DirMap :: "(string \<times> bool) list"

definition RegisteredServices :: "ChasmPref \<Rightarrow> nat" where
  "RegisteredServices p = length (FolderStores p) + length (GDriveStores p)"

definition NeedSetup :: "ChasmPref \<Rightarrow> bool" where
  "NeedSetup p = (RegisteredServices p < 2)"

definition AllCloudStores :: "ChasmPref \<Rightarrow> CloudStore list" where
  "AllCloudStores p = map FolderCS (FolderStores p) @ map GDriveCS (GDriveStores p)"

definition chasmPrefFile :: string where
  "chasmPrefFile = ''.chasm''"

definition chasmIgnoreFile :: string where
  "chasmIgnoreFile = ''.chasmignore''"

subsection \<open>What the code consumes from outside\<close>

text \<open>
  The hash and encoding of the standard library, its glob matcher and JSON codec, and the
  secret sharing and identifier generator of the repository that are not in \<^verbatim>\<open>util.go\<close>
  are parameters of the model: every operation takes them in one record. A theorem that
  needs a property of one of them states it as a hypothesis. \<open>RandomShareID\<close> is applied
  to a counter kept in the state, so that successive calls may differ.
\<close>

record ext =
  sha256_Sum :: "bytes \<Rightarrow> bytes"
  base64_URLEncode :: "bytes \<Rightarrow> string"
  filepath_Match :: "string \<Rightarrow> string \<Rightarrow> bool"
  json_Marshal :: "ChasmPref \<Rightarrow> bytes"
  json_Unmarshal :: "bytes \<Rightarrow> ChasmPref option"
  CreateShares :: "bytes \<Rightarrow> ShareID \<Rightarrow> nat \<Rightarrow> Share list"
  CombineShares :: "Share list \<Rightarrow> bytes"
  RandomShareID :: "nat \<Rightarrow> ShareID"

definition SHA256Base64URL :: "ext \<Rightarrow> bytes \<Rightarrow> string" where
  "SHA256Base64URL X data = base64_URLEncode X (sha256_Sum X data)"

definition checkSHA2 :: "ext \<Rightarrow> string \<Rightarrow> bytes \<Rightarrow> bool" where
  "checkSHA2 X hash data = (SHA256Base64URL X data = hash)"

subsection \<open>The state: preferences, local disk, cloud stores, trace\<close>

text \<open>
  A node of the local disk is a regular file (\<open>None\<close> when it cannot be read) or a
  directory with the names \<^verbatim>\<open>ReadDir\<close> lists. The disk is looked up at cleaned paths.
\<close>

datatype node = Regular "bytes option" | Directory "string list"

type_synonym disk = "string \<Rightarrow> node option"

datatype message =
    MsgIgnoredAdd string
  | MsgIgnoredDelete string
  | MsgCannotGetFileInfo string
  | MsgCannotReadFile string
  | MsgDeletedShare
  | MsgNotTracked string
  | MsgRestoreFailed CloudStore
  | MsgSkippingShare ShareID
  | MsgNotEnoughShares ShareID
  | MsgCannotRestorePrefs
  | MsgInvalidSHA2 ShareID
  | MsgErrorWriting string
  | MsgDone
  | MsgCreatingNew
  | MsgCouldNotWrite string

datatype event =
    EvUpload CloudStore Share
  | EvDelete CloudStore ShareID
  | EvRestore CloudStore
  | EvWriteFile string bytes
  | EvMkdirAll string
  | EvPrint message

record world =
  preferences :: ChasmPref
  disk :: disk
  remote :: "CloudStore \<Rightarrow> ShareID \<Rightarrow> bytes option"
  reachable :: "CloudStore \<Rightarrow> bool"
  rng :: nat
  trace :: "event list"

definition emit :: "event \<Rightarrow> world \<Rightarrow> world" where
  "emit e w = w\<lparr>trace := trace w @ [e]\<rparr>"

definition say :: "message \<Rightarrow> world \<Rightarrow> world" where
  "say m w = emit (EvPrint m) w"

subsection \<open>The local file system\<close>

definition fs_lookup :: "disk \<Rightarrow> string \<Rightarrow> node option" where
  "fs_lookup d p = d (path_Clean p)"

definition ioutil_ReadFile :: "disk \<Rightarrow> string \<Rightarrow> bytes option" where
  "ioutil_ReadFile d p =
     (case fs_lookup d p of Some (Regular (Some b)) \<Rightarrow> Some b | _ \<Rightarrow> None)"

definition ioutil_ReadDir :: "disk \<Rightarrow> string \<Rightarrow> string list" where
  "ioutil_ReadDir d p =
     (case fs_lookup d p of Some (Directory names) \<Rightarrow> names | _ \<Rightarrow> [])"

definition parent_dir :: "string \<Rightarrow> string" where
  "parent_dir p = path_Clean (fst (path_Split (path_Clean p)))"

definition register_name :: "string \<Rightarrow> disk \<Rightarrow> disk" where
  "register_name p d =
     (case d (parent_dir p) of
        Some (Directory names) \<Rightarrow>
          (let name = snd (path_Split (path_Clean p))
           in if name \<in> set names \<or> parent_dir p = path_Clean p then d
              else d(parent_dir p \<mapsto> Directory (names @ [name])))
      | _ \<Rightarrow> d)"

text \<open>
  \<^verbatim>\<open>ioutil.WriteFile\<close>: fails on a directory, on an unreadable file and where the parent
  directory is missing; otherwise the file holds the new bytes.
\<close>

definition disk_write :: "string \<Rightarrow> bytes \<Rightarrow> disk \<Rightarrow> disk option" where
  "disk_write p b d =
     (case fs_lookup d p of
        Some (Directory names) \<Rightarrow> None
      | Some (Regular None) \<Rightarrow> None
      | Some (Regular (Some old)) \<Rightarrow> Some (d(path_Clean p \<mapsto> Regular (Some b)))
      | None \<Rightarrow>
          (case d (parent_dir p) of
             Some (Directory names) \<Rightarrow>
               Some (register_name p (d(path_Clean p \<mapsto> Regular (Some b))))
           | _ \<Rightarrow> None))"

text \<open>The call is traced whether it succeeds or not; the result says whether it did.\<close>

definition ioutil_WriteFile :: "string \<Rightarrow> bytes \<Rightarrow> world \<Rightarrow> bool \<times> world" where
  "ioutil_WriteFile p b w =
     (case disk_write p b (disk w) of
        None \<Rightarrow> (False, emit (EvWriteFile p b) w)
      | Some d \<Rightarrow> (True, (emit (EvWriteFile p b) w)\<lparr>disk := d\<rparr>))"

text \<open>
  \<^verbatim>\<open>os.MkdirAll\<close>: the ancestors of the path, outermost first, are created where they are
  missing; it stops at the first one that exists and is not a directory.
\<close>

fun prefixes_from :: "string list \<Rightarrow> string list \<Rightarrow> string list list" where
  "prefixes_from acc [] = []"
| "prefixes_from acc (s # ss) = (acc @ [s]) # prefixes_from (acc @ [s]) ss"

definition path_ancestors :: "string \<Rightarrow> string list" where
  "path_ancestors p =
     (let c = path_Clean p
      in if hd c = slash
         then [slash] # map (\<lambda>segs. slash # join_slash segs)
                (prefixes_from [] (filter (\<lambda>s. s \<noteq> []) (split_slash [] c)))
         else map join_slash (prefixes_from [] (split_slash [] c)))"

fun mkdir_chain :: "string list \<Rightarrow> disk \<Rightarrow> disk" where
  "mkdir_chain [] d = d"
| "mkdir_chain (p # ps) d =
     (case d p of
        Some (Directory names) \<Rightarrow> mkdir_chain ps d
      | Some (Regular content) \<Rightarrow> d
      | None \<Rightarrow> mkdir_chain ps (register_name p (d(p \<mapsto> Directory []))))"

definition os_MkdirAll :: "string \<Rightarrow> world \<Rightarrow> world" where
  "os_MkdirAll p w = (emit (EvMkdirAll p) w)\<lparr>disk := mkdir_chain (path_ancestors p) (disk w)\<rparr>"

subsection \<open>The cloud stores\<close>

text \<open>
  Modelled from the spec: the implementations of \<^verbatim>\<open>Upload\<close>, \<^verbatim>\<open>Delete\<close> and \<^verbatim>\<open>Restore\<close>
  are outside \<^verbatim>\<open>util.go\<close>. A store holds one share per identifier; upload and delete
  change it when the store is reachable; the restore capability copies all of the store's
  shares to a staging location and returns it, and returns the empty string (here
  \<open>None\<close>) when it fails. A staging location is the map from identifiers to the bytes
  of the share files in it, so reading \<^verbatim>\<open>path.Join(sp, sid)\<close> is a lookup in that map.
\<close>

type_synonym staging = "ShareID \<Rightarrow> bytes option"

definition cs_Upload :: "CloudStore \<Rightarrow> Share \<Rightarrow> world \<Rightarrow> world" where
  "cs_Upload cs share w =
     (emit (EvUpload cs share) w)
       \<lparr>remote := (if reachable w cs
                   then (remote w)(cs := (remote w cs)(share_SID share \<mapsto> Data share))
                   else remote w)\<rparr>"

definition cs_Delete :: "CloudStore \<Rightarrow> ShareID \<Rightarrow> world \<Rightarrow> world" where
  "cs_Delete cs sid w =
     (emit (EvDelete cs sid) w)
       \<lparr>remote := (if reachable w cs
                   then (remote w)(cs := (remote w cs)(sid := None))
                   else remote w)\<rparr>"

definition cs_Restore :: "CloudStore \<Rightarrow> world \<Rightarrow> staging option \<times> world" where
  "cs_Restore cs w =
     ((if reachable w cs then Some (remote w cs) else None), emit (EvRestore cs) w)"

subsection \<open>Saving the preferences\<close>

text \<open>
  \<^verbatim>\<open>Save\<close> marshals the global preferences and writes them to the preferences file; the
  result of the write is ignored. Marshalling this structure does not fail, so the
  \<^verbatim>\<open>check\<close> after it never panics.
\<close>

definition chasmFilePath :: "ChasmPref \<Rightarrow> string" where
  "chasmFilePath p = path_Join [root p, chasmPrefFile]"

definition Save :: "ext \<Rightarrow> world \<Rightarrow> world" where
  "Save X w =
     snd (ioutil_WriteFile (chasmFilePath (preferences w)) (json_Marshal X (preferences w)) w)"

definition set_FileMap :: "string \<Rightarrow> FileShare \<Rightarrow> world \<Rightarrow> world" where
  "set_FileMap k v w =
     w\<lparr>preferences := (preferences w)\<lparr>FileMap := AList.update k v (FileMap (preferences w))\<rparr>\<rparr>"

definition set_DirMap :: "string \<Rightarrow> world \<Rightarrow> world" where
  "set_DirMap k w =
     w\<lparr>preferences := (preferences w)\<lparr>DirMap := AList.update k True (DirMap (preferences w))\<rparr>\<rparr>"

subsection \<open>CreateOrLoadChasmDir\<close>

definition defaultIgnore :: bytes where
  "defaultIgnore = ''.DS_Store'' @ [CHR 0x0A]"

definition CreateOrLoadChasmDir :: "ext \<Rightarrow> string \<Rightarrow> world \<Rightarrow> world" where
  "CreateOrLoadChasmDir X r w0 =
     (let w1 = os_MkdirAll r w0;
          cfp = path_Join [r, chasmPrefFile];
          w2 = (case ioutil_ReadFile (disk w1) cfp of
                  None \<Rightarrow>
                    (say MsgCreatingNew w1)
                      \<lparr>preferences := (preferences w1)
                         \<lparr>FileMap := [(cfp, \<lparr>SID = chasmPrefFile, Hash = []\<rparr>)], DirMap := []\<rparr>\<rparr>
                | Some b \<Rightarrow>
                    (case json_Unmarshal X b of
                       None \<Rightarrow> w1
                     | Some p \<Rightarrow> w1\<lparr>preferences := p\<lparr>root := root (preferences w1)\<rparr>\<rparr>));
          cip = path_Join [r, chasmIgnoreFile];
          w3 = (case ioutil_ReadFile (disk w2) cip of
                  Some b \<Rightarrow> w2
                | None \<Rightarrow>
                    (let w2a = set_FileMap cip
                                 \<lparr>SID = chasmIgnoreFile, Hash = SHA256Base64URL X defaultIgnore\<rparr> w2;
                         (ok, w2b) = ioutil_WriteFile cip defaultIgnore w2a
                     in if ok then w2b else say (MsgCouldNotWrite cfp) w2b));
          w4 = w3\<lparr>preferences := (preferences w3)\<lparr>root := r\<rparr>\<rparr>
      in Save X w4)"

subsection \<open>The ignore filter\<close>

text \<open>
  \<^verbatim>\<open>bufio.Scanner\<close> with its default split function: lines end at a newline, one trailing
  carriage return is dropped, and a last line without newline counts when it is not empty.
  Its limit on the length of a line is not modelled.
\<close>

definition dropCR :: "string \<Rightarrow> string" where
  "dropCR l = (if l \<noteq> [] \<and> last l = CHR 0x0D then butlast l else l)"

fun ScanLines :: "string \<Rightarrow> string \<Rightarrow> string list" where
  "ScanLines acc [] = (if acc = [] then [] else [dropCR acc])"
| "ScanLines acc (c # cs) =
     (if c = CHR 0x0A then dropCR acc # ScanLines [] cs else ScanLines (acc @ [c]) cs)"

fun match_any :: "ext \<Rightarrow> string list \<Rightarrow> string \<Rightarrow> bool" where
  "match_any X [] base = False"
| "match_any X (pattern # rest) base =
     (if filepath_Match X pattern base then True else match_any X rest base)"

text \<open>
  The rules file is opened on every call. Where it cannot be opened, or is a directory (the
  scan then reads nothing), every path is valid.
\<close>

definition IsValidPath :: "ext \<Rightarrow> world \<Rightarrow> string \<Rightarrow> bool" where
  "IsValidPath X w filePath =
     (let base = filepath_Base filePath;
          chasmIgnorePath = path_Join [root (preferences w), chasmIgnoreFile]
      in case ioutil_ReadFile (disk w) chasmIgnorePath of
           None \<Rightarrow> True
         | Some rules \<Rightarrow> \<not> match_any X (ScanLines [] rules) base)"

subsection \<open>AddFile\<close>

text \<open>
  An operation returns, panics (an index out of range) or, in the model only, runs out of
  fuel: \<^verbatim>\<open>AddFile\<close> follows the directories it finds on the disk and \<^verbatim>\<open>DeleteFile\<close> and
  \<^verbatim>\<open>DeleteDir\<close> call each other, so both take a bound on the depth of their recursion.
\<close>

datatype outcome = Returned world | Panicked world | OutOfFuel

text \<open>The upload loop: \<^verbatim>\<open>shares[i]\<close> panics when \<open>i\<close> is not an index of \<open>shares\<close>.\<close>

fun upload_range :: "nat \<Rightarrow> CloudStore list \<Rightarrow> Share list \<Rightarrow> world \<Rightarrow> outcome" where
  "upload_range i [] shares w = Returned w"
| "upload_range i (cs # rest) shares w =
     (if i < length shares
      then upload_range (Suc i) rest shares (cs_Upload cs (shares ! i) w)
      else Panicked w)"

text \<open>
  The part of \<^verbatim>\<open>AddFile\<close> after the switch on the file mode (lines 227 to 258). A file
  that cannot be opened has no file info (\<^verbatim>\<open>Stat\<close> on the nil handle fails), so \<^verbatim>\<open>AddFile\<close>
  returns before this part for it; the failure of \<^verbatim>\<open>ReadFile\<close> is kept as the code has it.
\<close>

definition AddFile_regular :: "ext \<Rightarrow> string \<Rightarrow> world \<Rightarrow> outcome" where
  "AddFile_regular X filePath w =
     (let (sid, w1) =
            (case map_of (FileMap (preferences w)) filePath of
               Some existingFileShare \<Rightarrow> (SID existingFileShare, w)
             | None \<Rightarrow> (RandomShareID X (rng w), w\<lparr>rng := Suc (rng w)\<rparr>))
      in case ioutil_ReadFile (disk w1) filePath of
           None \<Rightarrow> Returned (say (MsgCannotReadFile filePath) w1)
         | Some fileBytes \<Rightarrow>
             (let w2 = set_FileMap filePath
                         \<lparr>SID = sid, Hash = SHA256Base64URL X fileBytes\<rparr> w1;
                  allCloudStores = AllCloudStores (preferences w2);
                  shares = CreateShares X fileBytes sid (length allCloudStores)
              in case upload_range 0 allCloudStores shares w2 of
                   Returned w3 \<Rightarrow> Returned (if sid \<noteq> ''.chasm'' then Save X w3 else w3)
                 | other \<Rightarrow> other))"

fun AddFile :: "nat \<Rightarrow> ext \<Rightarrow> string \<Rightarrow> world \<Rightarrow> outcome"
  and AddFile_range :: "nat \<Rightarrow> ext \<Rightarrow> string \<Rightarrow> string list \<Rightarrow> world \<Rightarrow> outcome" where
  "AddFile 0 X filePath w = OutOfFuel"
| "AddFile (Suc n) X filePath w =
     (if \<not> IsValidPath X w filePath then Returned (say (MsgIgnoredAdd filePath) w)
      else
        (case fs_lookup (disk w) filePath of
           None \<Rightarrow> Returned (say (MsgCannotGetFileInfo filePath) w)
         | Some (Regular None) \<Rightarrow> Returned (say (MsgCannotGetFileInfo filePath) w)
         | Some (Directory names) \<Rightarrow>
             AddFile_range n X filePath (ioutil_ReadDir (disk w) filePath)
               (set_DirMap (path_Clean filePath) w)
         | Some (Regular (Some content)) \<Rightarrow> AddFile_regular X filePath w))"
| "AddFile_range n X filePath [] w = Returned w"
| "AddFile_range n X filePath (f # files) w =
     (case AddFile n X (path_Join [filePath, f]) w of
        Returned w' \<Rightarrow> AddFile_range n X filePath files w'
      | other \<Rightarrow> other)"

subsection \<open>DeleteFile and DeleteDir\<close>

text \<open>The part of \<^verbatim>\<open>DeleteFile\<close> after the directory test (lines 273 to 288).\<close>

definition DeleteFile_tracked :: "ext \<Rightarrow> string \<Rightarrow> world \<Rightarrow> world" where
  "DeleteFile_tracked X filePath w =
     (let allCloudStores = AllCloudStores (preferences w)
      in case map_of (FileMap (preferences w)) filePath of
           Some fileShare \<Rightarrow>
             (let w1 = foldl (\<lambda>v cs. cs_Delete cs (SID fileShare) v) w allCloudStores;
                  w2 = w1\<lparr>preferences := (preferences w1)
                          \<lparr>FileMap := AList.delete filePath (FileMap (preferences w1))\<rparr>\<rparr>
              in say MsgDeletedShare (Save X w2))
         | None \<Rightarrow> say (MsgNotTracked filePath) w)"

text \<open>
  The loop of \<^verbatim>\<open>DeleteDir\<close> ranges over the file map while \<^verbatim>\<open>DeleteFile\<close> removes entries
  from it: the keys are those of the map when the loop starts, and a key removed before
  the loop reaches it is not visited.
\<close>

fun DeleteFile :: "nat \<Rightarrow> ext \<Rightarrow> string \<Rightarrow> world \<Rightarrow> outcome"
  and DeleteDir :: "nat \<Rightarrow> ext \<Rightarrow> string \<Rightarrow> world \<Rightarrow> outcome"
  and DeleteDir_range :: "nat \<Rightarrow> ext \<Rightarrow> string \<Rightarrow> string list \<Rightarrow> world \<Rightarrow> outcome" where
  "DeleteFile 0 X filePath w = OutOfFuel"
| "DeleteFile (Suc n) X filePath w =
     (if \<not> IsValidPath X w filePath then Returned (say (MsgIgnoredDelete filePath) w)
      else
        (let potenDirPath = path_Clean filePath
         in case map_of (DirMap (preferences w)) potenDirPath of
              Some tracked \<Rightarrow> DeleteDir n X potenDirPath w
            | None \<Rightarrow> Returned (DeleteFile_tracked X filePath w)))"
| "DeleteDir n X dirPath w =
     (let w1 = w\<lparr>preferences := (preferences w)
                  \<lparr>DirMap := AList.delete dirPath (DirMap (preferences w))\<rparr>\<rparr>
      in DeleteDir_range n X dirPath (map fst (FileMap (preferences w1))) w1)"
| "DeleteDir_range n X dirPath [] w = Returned w"
| "DeleteDir_range n X dirPath (filePath # rest) w =
     (if map_of (FileMap (preferences w)) filePath = None
      then DeleteDir_range n X dirPath rest w
      else if path_Clean (fst (path_Split filePath)) \<noteq> path_Clean dirPath
      then DeleteDir_range n X dirPath rest w
      else
        (case DeleteFile n X filePath w of
           Returned w' \<Rightarrow> DeleteDir_range n X dirPath rest w'
         | other \<Rightarrow> other))"

subsection \<open>Restore\<close>

text \<open>Step (1): a staging location from every store, or none at all.\<close>

fun fetch_all :: "CloudStore list \<Rightarrow> world \<Rightarrow> staging list option \<times> world" where
  "fetch_all [] w = (Some [], w)"
| "fetch_all (cs # rest) w =
     (case cs_Restore cs w of
        (None, w1) \<Rightarrow> (None, say (MsgRestoreFailed cs) w1)
      | (Some sp, w1) \<Rightarrow>
          (case fetch_all rest w1 of
             (None, w2) \<Rightarrow> (None, w2)
           | (Some sps, w2) \<Rightarrow> (Some (sp # sps), w2)))"

text \<open>
  The loop of \<^verbatim>\<open>restoreShareID\<close>: the slice of shares (a share that could not be read
  stays the zero value), the number of shares found, and the messages printed.
\<close>

fun collect_shares :: "ShareID \<Rightarrow> staging list \<Rightarrow> world \<Rightarrow> Share list \<times> nat \<times> world" where
  "collect_shares sid [] w = ([], 0, w)"
| "collect_shares sid (sp # sps) w =
     (case sp sid of
        None \<Rightarrow>
          (let (fileShares, found, w') = collect_shares sid sps (say (MsgSkippingShare sid) w)
           in (Share [] [] # fileShares, found, w'))
      | Some dataBytes \<Rightarrow>
          (let (fileShares, found, w') = collect_shares sid sps w
           in (Share sid dataBytes # fileShares, Suc found, w')))"

definition restoreShareID :: "ext \<Rightarrow> ShareID \<Rightarrow> staging list \<Rightarrow> world \<Rightarrow> bytes \<times> world" where
  "restoreShareID X sid sharePaths w =
     (let (fileShares, sharesFound, w1) = collect_shares sid sharePaths w
      in if sharesFound < RegisteredServices (preferences w1)
         then ([], say (MsgNotEnoughShares sid) w1)
         else (CombineShares X fileShares, w1))"

text \<open>The body of the loop of step (4), for one entry of the restored file map.\<close>

definition restore_file :: "ext \<Rightarrow> staging list \<Rightarrow> world \<Rightarrow> string \<times> FileShare \<Rightarrow> world" where
  "restore_file X sharePaths w entry =
     (let filePath = fst entry; fileShare = snd entry;
          (fileBytes, w1) = restoreShareID X (SID fileShare) sharePaths w
      in if length fileBytes = 0 then w1
         else if SID fileShare \<noteq> chasmPrefFile \<and> checkSHA2 X (Hash fileShare) fileBytes = False
         then say (MsgInvalidSHA2 (SID fileShare)) w1
         else
           (let (ok, w2) = ioutil_WriteFile filePath fileBytes w1
            in if ok then w2 else say (MsgErrorWriting filePath) w2))"

text \<open>The body of the loop of step (3), for one entry of the restored directory map.\<close>

definition restore_dir :: "world \<Rightarrow> string \<times> bool \<Rightarrow> world" where
  "restore_dir w entry = set_DirMap (fst entry) (os_MkdirAll (fst entry) w)"

definition Restore :: "ext \<Rightarrow> world \<Rightarrow> world" where
  "Restore X w =
     (let allCloudStores = AllCloudStores (preferences w)
      in case fetch_all allCloudStores w of
           (None, w1) \<Rightarrow> w1
         | (Some sharePaths, w1) \<Rightarrow>
             (let (chasmFileBytes, w2) = restoreShareID X chasmPrefFile sharePaths w1
              in case json_Unmarshal X chasmFileBytes of
                   None \<Rightarrow> say MsgCannotRestorePrefs w2
                 | Some restoredPrefs \<Rightarrow>
                     (let w3 = foldl restore_dir w2 (DirMap restoredPrefs);
                          w4 = foldl (restore_file X sharePaths) w3 (FileMap restoredPrefs)
                      in say MsgDone w4)))"

section \<open>An instance of the external primitives\<close>

text \<open>
  To run the model on concrete inputs the parameters need values. This instance is used
  only where a theorem is applied to, or the code is evaluated at, a concrete state; no
  general theorem depends on it. Its codec writes every character of a string behind an
  underscore, ends a string with a semicolon and a section with a bar, and has a section
  for each exported field of the preferences (the root is not exported and decodes as the
  empty string).
\<close>

definition enc_str :: "string \<Rightarrow> string" where
  "enc_str s = concat (map (\<lambda>c. [CHR ''_'', c]) s) @ '';''"

definition enc_sec :: "string list \<Rightarrow> string" where
  "enc_sec ss = concat (map enc_str ss) @ ''|''"

definition demo_Marshal :: "ChasmPref \<Rightarrow> bytes" where
  "demo_Marshal p =
     enc_sec (FolderStores p) @ enc_sec (GDriveStores p)
     @ enc_sec (concat (map (\<lambda>e. [fst e, SID (snd e), Hash (snd e)]) (FileMap p)))
     @ enc_sec (concat (map (\<lambda>e. [fst e, if snd e then ''t'' else ''f'']) (DirMap p)))"

fun dec_secs :: "string \<Rightarrow> string list \<Rightarrow> string list list \<Rightarrow> string \<Rightarrow> string list list option" where
  "dec_secs cur sec secs [] = (if cur = [] \<and> sec = [] then Some secs else None)"
| "dec_secs cur sec secs [c] =
     (if c = CHR ''|'' \<and> cur = [] then Some (secs @ [sec]) else None)"
| "dec_secs cur sec secs (c # x # rest) =
     (if c = CHR ''_'' then dec_secs (cur @ [x]) sec secs rest
      else if c = CHR '';'' then dec_secs [] (sec @ [cur]) secs (x # rest)
      else if c = CHR ''|'' \<and> cur = [] then dec_secs [] [] (secs @ [sec]) (x # rest)
      else None)"

fun dec_files :: "string list \<Rightarrow> (string \<times> FileShare) list option" where
  "dec_files [] = Some []"
| "dec_files (k # s # h # rest) =
     (case dec_files rest of None \<Rightarrow> None | Some es \<Rightarrow> Some ((k, \<lparr>SID = s, Hash = h\<rparr>) # es))"
| "dec_files other = None"

fun dec_dirs :: "string list \<Rightarrow> (string \<times> bool) list option" where
  "dec_dirs [] = Some []"
| "dec_dirs (k # b # rest) =
     (case dec_dirs rest of None \<Rightarrow> None | Some es \<Rightarrow> Some ((k, b = ''t'') # es))"
| "dec_dirs other = None"

definition demo_Unmarshal :: "bytes \<Rightarrow> ChasmPref option" where
  "demo_Unmarshal b =
     (case dec_secs [] [] [] b of
        Some [fs, gs, fm, dm] \<Rightarrow>
          (case dec_files fm of
             None \<Rightarrow> None
           | Some f \<Rightarrow>
               (case dec_dirs dm of
                  None \<Rightarrow> None
                | Some d \<Rightarrow>
                    Some \<lparr>root = [], FolderStores = fs, GDriveStores = gs, FileMap = f, DirMap = d\<rparr>))
      | _ \<Rightarrow> None)"

text \<open>
  The hash prefixes its input with one character, so it is injective and never empty; the
  encoding is the identity; a pattern matches the name equal to it (what a glob pattern
  without metacharacters does); a split into \<open>n\<close> shares gives \<open>n\<close> copies of the data and
  combining returns the data of the first share.
\<close>

definition demo :: ext where
  "demo =
     \<lparr>sha256_Sum = (\<lambda>d. CHR ''#'' # d),
      base64_URLEncode = (\<lambda>d. d),
      filepath_Match = (\<lambda>pattern name. pattern = name),
      json_Marshal = demo_Marshal,
      json_Unmarshal = demo_Unmarshal,
      CreateShares = (\<lambda>data sid n. replicate n (Share sid data)),
      CombineShares = (\<lambda>shares. case shares of [] \<Rightarrow> [] | s # rest \<Rightarrow> Data s),
      RandomShareID = (\<lambda>k. replicate (Suc k) (CHR ''s''))\<rparr>"

subsection \<open>Concrete states\<close>

text \<open>
  A root \<^verbatim>\<open>/r\<close> with the default rules file, a file \<^verbatim>\<open>a\<close>, an empty file \<^verbatim>\<open>e\<close> and an
  empty directory \<^verbatim>\<open>d\<close>; one folder store and one drive store, both empty and reachable;
  the preferences as \<^verbatim>\<open>CreateOrLoadChasmDir\<close> leaves them for a new root.
\<close>

definition disk0 :: disk where
  "disk0 =
     [''/'' \<mapsto> Directory [''r''],
      ''/r'' \<mapsto> Directory [''.chasmignore'', ''a'', ''e'', ''d''],
      ''/r/.chasmignore'' \<mapsto> Regular (Some defaultIgnore),
      ''/r/a'' \<mapsto> Regular (Some ''hello''),
      ''/r/e'' \<mapsto> Regular (Some []),
      ''/r/d'' \<mapsto> Directory []]"

definition prefs0 :: ChasmPref where
  "prefs0 =
     \<lparr>root = ''/r'', FolderStores = [''A''], GDriveStores = [''G''],
      FileMap = [(''/r/.chasm'', \<lparr>SID = ''.chasm'', Hash = []\<rparr>)], DirMap = []\<rparr>"

definition world0 :: world where
  "world0 =
     \<lparr>preferences = prefs0, disk = disk0, remote = (\<lambda>cs sid. None),
      reachable = (\<lambda>cs. True), rng = 0, trace = []\<rparr>"

text \<open>
  The file \<^verbatim>\<open>/r/a\<close> is tracked and its shares are in the stores; afterwards its name was
  added to the rules file.
\<close>

definition world_ignored :: world where
  "world_ignored =
     world0\<lparr>preferences :=
              prefs0\<lparr>FileMap := FileMap prefs0 @ [(''/r/a'', \<lparr>SID = ''s'', Hash = ''#hello''\<rparr>)]\<rparr>,
            disk := disk0(''/r/.chasmignore'' \<mapsto> Regular (Some (defaultIgnore @ ''a'' @ [CHR 0x0A]))),
            remote := (\<lambda>cs. [''s'' \<mapsto> ''hello''])\<rparr>"

text \<open>The same root with one store only.\<close>

definition world_single :: world where
  "world_single = world0\<lparr>preferences := prefs0\<lparr>GDriveStores := []\<rparr>\<rparr>"

text \<open>A process that has just started: zero preferences, an empty disk.\<close>

definition world_fresh :: world where
  "world_fresh =
     \<lparr>preferences = \<lparr>root = [], FolderStores = [], GDriveStores = [], FileMap = [], DirMap = []\<rparr>,
      disk = [''/'' \<mapsto> Directory []], remote = (\<lambda>cs sid. None),
      reachable = (\<lambda>cs. True), rng = 0, trace = []\<rparr>"

text \<open>A directory \<^verbatim>\<open>d\<close> with a file and a subdirectory that holds a file of its own.\<close>

definition disk_tree :: disk where
  "disk_tree =
     [''/'' \<mapsto> Directory [''r''],
      ''/r'' \<mapsto> Directory [''.chasmignore'', ''d''],
      ''/r/.chasmignore'' \<mapsto> Regular (Some defaultIgnore),
      ''/r/d'' \<mapsto> Directory [''a'', ''sub''],
      ''/r/d/a'' \<mapsto> Regular (Some ''hello''),
      ''/r/d/sub'' \<mapsto> Directory [''x''],
      ''/r/d/sub/x'' \<mapsto> Regular (Some ''deep'')]"

definition world_tree :: world where
  "world_tree = world0\<lparr>disk := disk_tree\<rparr>"

text \<open>The disk of a machine that has lost the tracked files.\<close>

definition disk_lost :: disk where
  "disk_lost = [''/'' \<mapsto> Directory [''r''], ''/r'' \<mapsto> Directory []]"

text \<open>The events an operation added to the trace.\<close>

definition new_events :: "world \<Rightarrow> world \<Rightarrow> event list" where
  "new_events w w' = drop (length (trace w)) (trace w')"

text \<open>The drive store cannot be reached.\<close>

definition world_offline :: world where
  "world_offline = world0\<lparr>reachable := (\<lambda>cs. cs \<noteq> GDriveCS ''G'')\<rparr>"

subsection \<open>Notions used to state the properties\<close>

text \<open>
  Modelled from the spec: \<^verbatim>\<open>CreateShares\<close> is outside \<^verbatim>\<open>util.go\<close>. The spec gives its
  contract as \<^verbatim>\<open>split(data, n) -> n shares\<close>: asked for \<open>n\<close> shares it returns \<open>n\<close>.
\<close>

definition split_contract :: "ext \<Rightarrow> bool" where
  "split_contract X = (\<forall>data sid n. length (CreateShares X data sid n) = n)"

text \<open>The identifier \<^verbatim>\<open>AddFile\<close> uses for a path (lines 227 to 233).\<close>

definition share_id_of :: "ext \<Rightarrow> world \<Rightarrow> string \<Rightarrow> ShareID" where
  "share_id_of X w filePath =
     (case map_of (FileMap (preferences w)) filePath of
        Some existingFileShare \<Rightarrow> SID existingFileShare
      | None \<Rightarrow> RandomShareID X (rng w))"

fun is_upload :: "event \<Rightarrow> bool" where
  "is_upload (EvUpload cs share) = True"
| "is_upload other = False"

fun is_write :: "event \<Rightarrow> bool" where
  "is_write (EvWriteFile p b) = True"
| "is_write other = False"

text \<open>The fresh process after it has created the root \<^verbatim>\<open>/r\<close>.\<close>

definition world_created :: world where
  "world_created = CreateOrLoadChasmDir demo ''/r'' world_fresh"



text \<open>
  The candidate bytes of a record: what \<^verbatim>\<open>restoreShareID\<close> returns for its identifier when
  that is not empty (line 339 takes an empty result for a failed reconstruction). The test
  of line 343 passes for the reserved identifier and for bytes with the stored fingerprint.
  The remaining notions name, for one entry of the manifest, the write and the report that
  the loop of step (4) issues; they are used in the proofs.
\<close>

definition candidate :: "ext \<Rightarrow> staging list \<Rightarrow> world \<Rightarrow> FileShare \<Rightarrow> bytes option" where
  "candidate X sharePaths w fileShare =
     (let fileBytes = fst (restoreShareID X (SID fileShare) sharePaths w)
      in if length fileBytes = 0 then None else Some fileBytes)"

definition passes :: "ext \<Rightarrow> FileShare \<Rightarrow> bytes \<Rightarrow> bool" where
  "passes X fileShare fileBytes =
     (\<not> (SID fileShare \<noteq> chasmPrefFile \<and> checkSHA2 X (Hash fileShare) fileBytes = False))"

definition not_enough :: "staging list \<Rightarrow> world \<Rightarrow> ShareID \<Rightarrow> bool" where
  "not_enough sharePaths w sid =
     (fst (snd (collect_shares sid sharePaths w)) < RegisteredServices (preferences w))"

definition entry_writes :: "ext \<Rightarrow> staging list \<Rightarrow> world \<Rightarrow> string \<times> FileShare \<Rightarrow> event list" where
  "entry_writes X sharePaths w entry =
     (case candidate X sharePaths w (snd entry) of
        None \<Rightarrow> []
      | Some fileBytes \<Rightarrow>
          if passes X (snd entry) fileBytes then [EvWriteFile (fst entry) fileBytes] else [])"

definition entry_reports :: "ext \<Rightarrow> staging list \<Rightarrow> world \<Rightarrow> string \<times> FileShare \<Rightarrow> event list" where
  "entry_reports X sharePaths w entry =
     (if not_enough sharePaths w (SID (snd entry))
      then [EvPrint (MsgNotEnoughShares (SID (snd entry)))]
      else
        (case candidate X sharePaths w (snd entry) of
           None \<Rightarrow> []
         | Some fileBytes \<Rightarrow>
             if passes X (snd entry) fileBytes then []
             else [EvPrint (MsgInvalidSHA2 (SID (snd entry)))]))"

fun is_report :: "event \<Rightarrow> bool" where
  "is_report (EvPrint (MsgNotEnoughShares sid)) = True"
| "is_report (EvPrint (MsgInvalidSHA2 sid)) = True"
| "is_report other = False"

definition piece :: "ShareID \<Rightarrow> staging \<Rightarrow> Share" where
  "piece sid sp = (case sp sid of None \<Rightarrow> Share [] [] | Some dataBytes \<Rightarrow> Share sid dataBytes)"









fun is_delete :: "event \<Rightarrow> bool" where
  "is_delete (EvDelete cs sid) = True"
| "is_delete other = False"

text \<open>One store only, and the file \<^verbatim>\<open>/r/a\<close> tracked.\<close>

definition world_single_tracked :: world where
  "world_single_tracked =
     world_single\<lparr>preferences :=
        (preferences world_single)
          \<lparr>FileMap := FileMap prefs0 @ [(''/r/a'', \<lparr>SID = ''s'', Hash = ''#hello''\<rparr>)]\<rparr>\<rparr>"

section \<open>Properties\<close>

subsection \<open>Basic facts\<close>

lemma match_any_iff: "match_any X ps b \<longleftrightarrow> (\<exists>p \<in> set ps. filepath_Match X p b)"
  by (induction ps) auto

lemma say_fields:
  "preferences (say m w) = preferences w" "disk (say m w) = disk w"
  "remote (say m w) = remote w" "reachable (say m w) = reachable w"
  "rng (say m w) = rng w" "trace (say m w) = trace w @ [EvPrint m]"
  by (simp_all add: say_def emit_def)

subsection \<open>Delete on an ignored path\<close>

text \<open>
  Claim C10. When the base name of the path matches a line of the rules file at the moment
  \<^verbatim>\<open>DeleteFile\<close> is called, \<^verbatim>\<open>DeleteFile\<close> returns after printing that the path is ignored:
  the preferences (so the file map, where the path may well be tracked), the stores and
  the disk are as before, and the only new event is the message, so no store was asked to
  delete a share.
\<close>

theorem DeleteFile_ignored_noop:
  assumes "ioutil_ReadFile (disk w) (path_Join [root (preferences w), chasmIgnoreFile]) = Some rules"
    and "pattern \<in> set (ScanLines [] rules)"
    and "filepath_Match X pattern (filepath_Base filePath)"
  shows "DeleteFile (Suc n) X filePath w = Returned (say (MsgIgnoredDelete filePath) w)
       \<and> preferences (say (MsgIgnoredDelete filePath) w) = preferences w
       \<and> remote (say (MsgIgnoredDelete filePath) w) = remote w
       \<and> disk (say (MsgIgnoredDelete filePath) w) = disk w
       \<and> trace (say (MsgIgnoredDelete filePath) w) = trace w @ [EvPrint (MsgIgnoredDelete filePath)]"
proof -
  have "\<not> IsValidPath X w filePath"
    using assms by (auto simp: IsValidPath_def match_any_iff)
  then show ?thesis by (simp add: say_fields)
qed

theorem DeleteFile_ignored_noop_witness:
  "ioutil_ReadFile (disk world_ignored)
       (path_Join [root (preferences world_ignored), chasmIgnoreFile])
     = Some (defaultIgnore @ ''a'' @ [CHR 0x0A])
   \<and> ''a'' \<in> set (ScanLines [] (defaultIgnore @ ''a'' @ [CHR 0x0A]))
   \<and> filepath_Match demo ''a'' (filepath_Base ''/r/a'')
   \<and> map_of (FileMap (preferences world_ignored)) ''/r/a'' = Some \<lparr>SID = ''s'', Hash = ''#hello''\<rparr>
   \<and> DeleteFile (Suc 0) demo ''/r/a'' world_ignored
       = Returned (say (MsgIgnoredDelete ''/r/a'') world_ignored)
   \<and> preferences (say (MsgIgnoredDelete ''/r/a'') world_ignored) = preferences world_ignored
   \<and> remote (say (MsgIgnoredDelete ''/r/a'') world_ignored) = remote world_ignored"
proof -
  have h1: "ioutil_ReadFile (disk world_ignored)
       (path_Join [root (preferences world_ignored), chasmIgnoreFile])
     = Some (defaultIgnore @ ''a'' @ [CHR 0x0A])"
    by code_simp
  have h2: "''a'' \<in> set (ScanLines [] (defaultIgnore @ ''a'' @ [CHR 0x0A]))"
    by code_simp
  have h3: "filepath_Match demo ''a'' (filepath_Base ''/r/a'')"
    by code_simp
  have h4: "map_of (FileMap (preferences world_ignored)) ''/r/a''
     = Some \<lparr>SID = ''s'', Hash = ''#hello''\<rparr>"
    by code_simp
  show ?thesis
    using h1 h2 h3 h4 DeleteFile_ignored_noop [OF h1 h2 h3, of 0] by simp
qed

subsection \<open>The code at concrete inputs\<close>

text \<open>
  Claim C1, at a zero-length file. The files \<^verbatim>\<open>/r/a\<close> (five bytes) and \<^verbatim>\<open>/r/e\<close> (no
  bytes) are added, then the preferences file; every store is reachable and holds both
  shares of both files, and the fingerprint stored for \<^verbatim>\<open>/r/e\<close> is that of the empty
  byte sequence. Restore on a disk without the two files writes \<^verbatim>\<open>/r/a\<close> back and prints
  that it is done, but it never writes \<^verbatim>\<open>/r/e\<close>: the empty result of combining its shares
  is taken for a failed reconstruction (line 339).
\<close>

theorem Restore_skips_empty_file:
  "(case AddFile 1 demo ''/r/a'' world0 of
      Returned w1 \<Rightarrow>
        (case AddFile 1 demo ''/r/e'' w1 of
           Returned w2 \<Rightarrow>
             (case AddFile 1 demo ''/r/.chasm'' w2 of
                Returned w3 \<Rightarrow>
                  ioutil_ReadFile (disk w3) ''/r/e'' = Some []
                  \<and> map_of (FileMap (preferences w3)) ''/r/e''
                      = Some \<lparr>SID = ''ss'', Hash = SHA256Base64URL demo []\<rparr>
                  \<and> remote w3 (FolderCS ''A'') ''ss'' = Some []
                  \<and> remote w3 (GDriveCS ''G'') ''ss'' = Some []
                  \<and> new_events w3 (Restore demo (w3\<lparr>disk := disk_lost\<rparr>))
                      = [EvRestore (FolderCS ''A''), EvRestore (GDriveCS ''G''),
                         EvWriteFile ''/r/.chasm'' (json_Marshal demo (preferences w2)),
                         EvWriteFile ''/r/a'' ''hello'',
                         EvPrint MsgDone]
                  \<and> ioutil_ReadFile (disk (Restore demo (w3\<lparr>disk := disk_lost\<rparr>))) ''/r/a''
                      = Some ''hello''
                  \<and> fs_lookup (disk (Restore demo (w3\<lparr>disk := disk_lost\<rparr>))) ''/r/e'' = None
              | _ \<Rightarrow> False)
         | _ \<Rightarrow> False)
    | _ \<Rightarrow> False)"
  by code_simp

text \<open>
  Claim C2, at one registered store. \<^verbatim>\<open>NeedSetup\<close> holds, and \<^verbatim>\<open>AddFile\<close> is not refused:
  it records the file, uploads a share to the one store and saves the preferences.
\<close>

theorem AddFile_single_store_not_refused:
  "NeedSetup (preferences world_single)
   \<and> (case AddFile 1 demo ''/r/a'' world_single of
        Returned w \<Rightarrow>
          map_of (FileMap (preferences w)) ''/r/a'' = Some \<lparr>SID = ''s'', Hash = ''#hello''\<rparr>
          \<and> trace w = [EvUpload (FolderCS ''A'') (Share ''s'' ''hello''),
                       EvWriteFile ''/r/.chasm'' (json_Marshal demo (preferences w))]
          \<and> remote w (FolderCS ''A'') ''s'' = Some ''hello''
      | _ \<Rightarrow> False)"
  by code_simp

text \<open>
  Claim C6, at the preferences file itself. A new root is created, which stores the
  reserved identifier with an empty fingerprint; \<^verbatim>\<open>AddFile\<close> on the preferences file then
  stores the fingerprint of the bytes of that file, which is not empty.
\<close>

theorem AddFile_metadata_stores_fingerprint:
  "map_of (FileMap (preferences (CreateOrLoadChasmDir demo ''/r'' world_fresh))) ''/r/.chasm''
     = Some \<lparr>SID = ''.chasm'', Hash = []\<rparr>
   \<and> (case ioutil_ReadFile (disk (CreateOrLoadChasmDir demo ''/r'' world_fresh)) ''/r/.chasm'' of
        Some content \<Rightarrow>
          (case AddFile 1 demo ''/r/.chasm'' (CreateOrLoadChasmDir demo ''/r'' world_fresh) of
             Returned w \<Rightarrow>
               map_of (FileMap (preferences w)) ''/r/.chasm''
                 = Some \<lparr>SID = ''.chasm'', Hash = SHA256Base64URL demo content\<rparr>
               \<and> SHA256Base64URL demo content \<noteq> []
           | _ \<Rightarrow> False)
      | None \<Rightarrow> False)"
  by code_simp

text \<open>
  Claim C7, at an empty directory. \<^verbatim>\<open>AddFile\<close> on the empty directory \<^verbatim>\<open>/r/d\<close> enters it
  in the directory map and returns: no event at all, so nothing was saved, and the
  preferences file does not exist afterwards. \<^verbatim>\<open>DeleteFile\<close> on the directory just added
  removes it from the directory map and returns, again without any event.
\<close>

theorem directory_mutation_not_saved:
  "AddFile (Suc (Suc 0)) demo ''/r/d'' world0
     = Returned (world0\<lparr>preferences := prefs0\<lparr>DirMap := [(''/r/d'', True)]\<rparr>\<rparr>)
   \<and> DirMap (preferences world0) = []
   \<and> trace (world0\<lparr>preferences := prefs0\<lparr>DirMap := [(''/r/d'', True)]\<rparr>\<rparr>) = []
   \<and> fs_lookup (disk (world0\<lparr>preferences := prefs0\<lparr>DirMap := [(''/r/d'', True)]\<rparr>\<rparr>)) ''/r/.chasm'' = None
   \<and> DeleteFile (Suc (Suc 0)) demo ''/r/d'' (world0\<lparr>preferences := prefs0\<lparr>DirMap := [(''/r/d'', True)]\<rparr>\<rparr>)
     = Returned (world0\<lparr>preferences := prefs0\<lparr>DirMap := []\<rparr>\<rparr>)"
  by (simp add: IsValidPath_def ioutil_ReadFile_def fs_lookup_def world0_def prefs0_def disk0_def
      path_Join_def path_Clean_def clean_step_def chasmIgnoreFile_def slash_def Let_def
      defaultIgnore_def filepath_Base_def demo_def dropCR_def set_DirMap_def ioutil_ReadDir_def
      path_Split_def)

text \<open>
  Claim C8, at a nested directory. \<^verbatim>\<open>AddFile\<close> on \<^verbatim>\<open>/r/d\<close> tracks the directory, its file,
  its subdirectory and the file in the subdirectory. \<^verbatim>\<open>DeleteFile\<close> on \<^verbatim>\<open>/r/d\<close> then
  removes \<^verbatim>\<open>/r/d\<close> and the file \<^verbatim>\<open>/r/d/a\<close> only: the subdirectory and its file stay
  tracked, no store is asked to delete the share of the nested file, and the stores still
  hold it.
\<close>

theorem DeleteDir_is_shallow:
  "(case AddFile 3 demo ''/r/d'' world_tree of
      Returned w1 \<Rightarrow>
        map fst (FileMap (preferences w1)) = [''/r/.chasm'', ''/r/d/a'', ''/r/d/sub/x'']
        \<and> map_of (FileMap (preferences w1)) ''/r/d/sub/x'' = Some \<lparr>SID = ''ss'', Hash = ''#deep''\<rparr>
        \<and> map fst (DirMap (preferences w1)) = [''/r/d'', ''/r/d/sub'']
        \<and> (case DeleteFile 3 demo ''/r/d'' w1 of
             Returned w2 \<Rightarrow>
               map fst (FileMap (preferences w2)) = [''/r/.chasm'', ''/r/d/sub/x'']
               \<and> map fst (DirMap (preferences w2)) = [''/r/d/sub'']
               \<and> new_events w1 w2
                   = [EvDelete (FolderCS ''A'') ''s'', EvDelete (GDriveCS ''G'') ''s'',
                      EvWriteFile ''/r/.chasm'' (json_Marshal demo (preferences w2)),
                      EvPrint MsgDeletedShare]
               \<and> remote w2 (FolderCS ''A'') ''ss'' = Some ''deep''
               \<and> remote w2 (GDriveCS ''G'') ''ss'' = Some ''deep''
           | _ \<Rightarrow> False)
    | _ \<Rightarrow> False)"
  by code_simp

subsection \<open>Restore when a store gives no staging location\<close>

lemma emit_fields:
  "preferences (emit e w) = preferences w" "disk (emit e w) = disk w"
  "remote (emit e w) = remote w" "reachable (emit e w) = reachable w"
  "rng (emit e w) = rng w" "trace (emit e w) = trace w @ [e]"
  by (simp_all add: emit_def)

lemma fetch_all_fails:
  assumes "cs \<in> set stores" and "\<not> reachable w cs"
  shows "\<exists>called failed.
           fetch_all stores w
             = (None, w\<lparr>trace := trace w @ map EvRestore (called @ [failed])
                                  @ [EvPrint (MsgRestoreFailed failed)]\<rparr>)
           \<and> \<not> reachable w failed \<and> set (called @ [failed]) \<subseteq> set stores"
  using assms
proof (induction stores arbitrary: w)
  case Nil
  then show ?case by simp
next
  case (Cons c stores)
  show ?case
  proof (cases "reachable w c")
    case False
    have "fetch_all (c # stores) w
        = (None, w\<lparr>trace := trace w @ map EvRestore ([] @ [c]) @ [EvPrint (MsgRestoreFailed c)]\<rparr>)"
      using False by (simp add: cs_Restore_def say_def emit_def)
    with False show ?thesis by (intro exI[of _ "[]"] exI[of _ c]) simp
  next
    case True
    with Cons.prems have mem: "cs \<in> set stores" by auto
    let ?w1 = "emit (EvRestore c) w"
    have nr: "\<not> reachable ?w1 cs" using Cons.prems(2) by (simp add: emit_fields)
    from Cons.IH[OF mem nr] obtain called failed where
      f: "fetch_all stores ?w1
            = (None, ?w1\<lparr>trace := trace ?w1 @ map EvRestore (called @ [failed])
                                  @ [EvPrint (MsgRestoreFailed failed)]\<rparr>)"
      and r: "\<not> reachable ?w1 failed" and s: "set (called @ [failed]) \<subseteq> set stores"
      by blast
    have "fetch_all (c # stores) w
        = (None, w\<lparr>trace := trace w @ map EvRestore ((c # called) @ [failed])
                                  @ [EvPrint (MsgRestoreFailed failed)]\<rparr>)"
      using True f by (simp add: cs_Restore_def emit_def)
    moreover have "\<not> reachable w failed" using r by (simp add: emit_fields)
    moreover have "set ((c # called) @ [failed]) \<subseteq> set (c # stores)" using s by auto
    ultimately show ?thesis by blast
  qed
qed

text \<open>
  Claim C3. When a registered store is unreachable, so that its restore capability yields
  no staging location, \<^verbatim>\<open>Restore\<close> returns from its first loop: the disk and the
  preferences are as before, and the only events are the calls of the restore capability
  up to the first store that fails and the message that the restore failed for that store.
  No directory was created and no file was written.
\<close>

theorem Restore_staging_failure_aborts:
  assumes "cs \<in> set (AllCloudStores (preferences w))" and "\<not> reachable w cs"
  shows "disk (Restore X w) = disk w \<and> preferences (Restore X w) = preferences w
       \<and> (\<exists>called failed.
             new_events w (Restore X w)
               = map EvRestore (called @ [failed]) @ [EvPrint (MsgRestoreFailed failed)]
             \<and> \<not> reachable w failed
             \<and> set (called @ [failed]) \<subseteq> set (AllCloudStores (preferences w)))"
proof -
  from fetch_all_fails[OF assms] obtain called failed where
    f: "fetch_all (AllCloudStores (preferences w)) w
          = (None, w\<lparr>trace := trace w @ map EvRestore (called @ [failed])
                                  @ [EvPrint (MsgRestoreFailed failed)]\<rparr>)"
    and r: "\<not> reachable w failed"
    and s: "set (called @ [failed]) \<subseteq> set (AllCloudStores (preferences w))"
    by blast
  have R: "Restore X w = w\<lparr>trace := trace w @ map EvRestore (called @ [failed])
                                  @ [EvPrint (MsgRestoreFailed failed)]\<rparr>"
    using f by (simp add: Restore_def)
  show ?thesis
    unfolding R using r s by (auto simp: new_events_def)
qed

theorem Restore_staging_failure_aborts_witness:
  "GDriveCS ''G'' \<in> set (AllCloudStores (preferences world_offline))
   \<and> \<not> reachable world_offline (GDriveCS ''G'')
   \<and> disk (Restore demo world_offline) = disk world_offline
   \<and> preferences (Restore demo world_offline) = preferences world_offline
   \<and> new_events world_offline (Restore demo world_offline)
       = [EvRestore (FolderCS ''A''), EvRestore (GDriveCS ''G''),
          EvPrint (MsgRestoreFailed (GDriveCS ''G''))]"
proof -
  have h1: "GDriveCS ''G'' \<in> set (AllCloudStores (preferences world_offline))"
    by code_simp
  have h2: "\<not> reachable world_offline (GDriveCS ''G'')"
    by code_simp
  have h3: "new_events world_offline (Restore demo world_offline)
       = [EvRestore (FolderCS ''A''), EvRestore (GDriveCS ''G''),
          EvPrint (MsgRestoreFailed (GDriveCS ''G''))]"
    by code_simp
  show ?thesis
    using h1 h2 h3 Restore_staging_failure_aborts [OF h1 h2, of demo] by simp
qed

subsection \<open>AddFile on a regular file\<close>

lemma cs_Upload_fields:
  "preferences (cs_Upload cs s w) = preferences w" "disk (cs_Upload cs s w) = disk w"
  "reachable (cs_Upload cs s w) = reachable w" "rng (cs_Upload cs s w) = rng w"
  "trace (cs_Upload cs s w) = trace w @ [EvUpload cs s]"
  by (simp_all add: cs_Upload_def emit_def)

lemma WriteFile_fields:
  "preferences (snd (ioutil_WriteFile p b w)) = preferences w"
  "remote (snd (ioutil_WriteFile p b w)) = remote w"
  "reachable (snd (ioutil_WriteFile p b w)) = reachable w"
  "rng (snd (ioutil_WriteFile p b w)) = rng w"
  "trace (snd (ioutil_WriteFile p b w)) = trace w @ [EvWriteFile p b]"
  by (simp_all add: ioutil_WriteFile_def emit_def split: option.splits)

lemma Save_fields:
  "preferences (Save X w) = preferences w"
  "remote (Save X w) = remote w"
  "reachable (Save X w) = reachable w"
  "rng (Save X w) = rng w"
  "trace (Save X w)
     = trace w @ [EvWriteFile (chasmFilePath (preferences w)) (json_Marshal X (preferences w))]"
  by (simp_all add: Save_def WriteFile_fields)

lemma upload_range_returns:
  assumes "i + length stores \<le> length shares"
  shows "\<exists>w'. upload_range i stores shares w = Returned w'
            \<and> preferences w' = preferences w \<and> disk w' = disk w
            \<and> reachable w' = reachable w \<and> rng w' = rng w
            \<and> trace w' = trace w
                 @ map (\<lambda>j. EvUpload (stores ! j) (shares ! (i + j))) [0..<length stores]"
  using assms
proof (induction stores arbitrary: i w)
  case Nil
  then show ?case by simp
next
  case (Cons cs rest)
  let ?w1 = "cs_Upload cs (shares ! i) w"
  from Cons.prems have lt: "i < length shares" and le: "Suc i + length rest \<le> length shares"
    by simp_all
  from Cons.IH[OF le, of ?w1] obtain w' where
    r: "upload_range (Suc i) rest shares ?w1 = Returned w'"
    and f: "preferences w' = preferences ?w1" "disk w' = disk ?w1"
           "reachable w' = reachable ?w1" "rng w' = rng ?w1"
    and t: "trace w' = trace ?w1
              @ map (\<lambda>j. EvUpload (rest ! j) (shares ! (Suc i + j))) [0..<length rest]"
    by blast
  have "upload_range i (cs # rest) shares w = Returned w'"
    using lt r by simp
  moreover have "trace w' = trace w
       @ map (\<lambda>j. EvUpload ((cs # rest) ! j) (shares ! (i + j))) [0..<length (cs # rest)]"
    using t by (simp add: cs_Upload_fields map_upt_Suc del: upt_Suc)
  ultimately show ?case using f by (simp add: cs_Upload_fields)
qed

lemma AddFile_regular_returns:
  assumes rd: "ioutil_ReadFile (disk w) filePath = Some fileBytes"
    and len: "length (AllCloudStores (preferences w))
                \<le> length (CreateShares X fileBytes (share_id_of X w filePath)
                             (length (AllCloudStores (preferences w))))"
  shows "\<exists>w'. AddFile_regular X filePath w = Returned w'
           \<and> preferences w' = (preferences w)
                \<lparr>FileMap := AList.update filePath
                     \<lparr>SID = share_id_of X w filePath, Hash = SHA256Base64URL X fileBytes\<rparr>
                     (FileMap (preferences w))\<rparr>
           \<and> trace w' = trace w
                @ map (\<lambda>j. EvUpload (AllCloudStores (preferences w) ! j)
                             (CreateShares X fileBytes (share_id_of X w filePath)
                                (length (AllCloudStores (preferences w))) ! j))
                    [0..<length (AllCloudStores (preferences w))]
                @ (if share_id_of X w filePath \<noteq> ''.chasm''
                   then [EvWriteFile (chasmFilePath (preferences w))
                           (json_Marshal X (preferences w'))]
                   else [])"
proof -
  let ?sid = "share_id_of X w filePath"
  let ?stores = "AllCloudStores (preferences w)"
  let ?shares = "CreateShares X fileBytes ?sid (length ?stores)"
  let ?w1 = "case map_of (FileMap (preferences w)) filePath of
               Some e \<Rightarrow> w | None \<Rightarrow> w\<lparr>rng := Suc (rng w)\<rparr>"
  let ?w2 = "set_FileMap filePath \<lparr>SID = ?sid, Hash = SHA256Base64URL X fileBytes\<rparr> ?w1"
  have w1: "preferences ?w1 = preferences w" "disk ?w1 = disk w" "trace ?w1 = trace w"
    by (simp_all split: option.splits)
  have w2: "preferences ?w2 = (preferences w)
                \<lparr>FileMap := AList.update filePath
                     \<lparr>SID = ?sid, Hash = SHA256Base64URL X fileBytes\<rparr>
                     (FileMap (preferences w))\<rparr>"
       "trace ?w2 = trace w"
    by (simp_all add: set_FileMap_def w1)
  have st: "AllCloudStores (preferences ?w2) = ?stores"
    by (simp add: w2 AllCloudStores_def)
  from len have "0 + length ?stores \<le> length ?shares" by simp
  from upload_range_returns[OF this, of ?w2] obtain w3 where
    u: "upload_range 0 ?stores ?shares ?w2 = Returned w3"
    and p3: "preferences w3 = preferences ?w2"
    and t3: "trace w3 = trace ?w2
               @ map (\<lambda>j. EvUpload (?stores ! j) (?shares ! (0 + j))) [0..<length ?stores]"
    by blast
  let ?w' = "if ?sid \<noteq> ''.chasm'' then Save X w3 else w3"
  have R: "AddFile_regular X filePath w = Returned ?w'"
    using rd u st
    by (simp add: AddFile_regular_def share_id_of_def Let_def w1 split: option.splits
          split del: if_split)
  have P: "preferences ?w' = preferences ?w2"
    by (simp add: Save_fields p3)
  have T: "trace ?w' = trace w
                @ map (\<lambda>j. EvUpload (?stores ! j) (?shares ! j)) [0..<length ?stores]
                @ (if ?sid \<noteq> ''.chasm''
                   then [EvWriteFile (chasmFilePath (preferences w))
                           (json_Marshal X (preferences ?w'))]
                   else [])"
    using t3 by (simp add: Save_fields p3 w2 chasmFilePath_def)
  show ?thesis
    using R P T w2(1) by (intro exI[of _ ?w']) simp
qed

lemma AddFile_on_regular:
  assumes "IsValidPath X w filePath"
    and "fs_lookup (disk w) filePath = Some (Regular (Some fileBytes))"
  shows "AddFile (Suc k) X filePath w = AddFile_regular X filePath w"
    and "ioutil_ReadFile (disk w) filePath = Some fileBytes"
  using assms by (simp_all add: ioutil_ReadFile_def)

lemma length_AllCloudStores: "length (AllCloudStores p) = RegisteredServices p"
  by (simp add: AllCloudStores_def RegisteredServices_def)

lemma filter_is_upload_uploads:
  "filter is_upload (map (\<lambda>j. EvUpload (f j) (g j)) js @ (if c then [EvWriteFile p b] else []))
     = map (\<lambda>j. EvUpload (f j) (g j)) js"
  by (induction js) auto

lemma AddFile_file_effect:
  assumes "IsValidPath X w filePath"
    and "fs_lookup (disk w) filePath = Some (Regular (Some fileBytes))"
    and "split_contract X"
  shows "\<exists>w'. AddFile (Suc k) X filePath w = Returned w'
          \<and> preferences w' = (preferences w)
                \<lparr>FileMap := AList.update filePath
                     \<lparr>SID = share_id_of X w filePath, Hash = SHA256Base64URL X fileBytes\<rparr>
                     (FileMap (preferences w))\<rparr>
          \<and> filter is_upload (new_events w w')
              = map (\<lambda>i. EvUpload (AllCloudStores (preferences w) ! i)
                            (CreateShares X fileBytes (share_id_of X w filePath)
                               (RegisteredServices (preferences w)) ! i))
                  [0..<RegisteredServices (preferences w)]
          \<and> filter is_write (new_events w w')
              = (if share_id_of X w filePath \<noteq> ''.chasm''
                 then [EvWriteFile (chasmFilePath (preferences w))
                         (json_Marshal X (preferences w'))]
                 else [])"
proof -
  let ?n = "RegisteredServices (preferences w)"
  have len: "length (CreateShares X fileBytes (share_id_of X w filePath) ?n) = ?n"
    using assms(3) by (simp add: split_contract_def)
  have rd: "ioutil_ReadFile (disk w) filePath = Some fileBytes"
    using assms(1,2) by (rule AddFile_on_regular(2))
  have "length (AllCloudStores (preferences w))
          \<le> length (CreateShares X fileBytes (share_id_of X w filePath)
                             (length (AllCloudStores (preferences w))))"
    using len by (simp add: length_AllCloudStores)
  from AddFile_regular_returns[OF rd this] obtain w' where
    r: "AddFile_regular X filePath w = Returned w'"
    and p: "preferences w' = (preferences w)
                \<lparr>FileMap := AList.update filePath
                     \<lparr>SID = share_id_of X w filePath, Hash = SHA256Base64URL X fileBytes\<rparr>
                     (FileMap (preferences w))\<rparr>"
    and t: "trace w' = trace w
                @ map (\<lambda>j. EvUpload (AllCloudStores (preferences w) ! j)
                             (CreateShares X fileBytes (share_id_of X w filePath)
                                (length (AllCloudStores (preferences w))) ! j))
                    [0..<length (AllCloudStores (preferences w))]
                @ (if share_id_of X w filePath \<noteq> ''.chasm''
                   then [EvWriteFile (chasmFilePath (preferences w))
                           (json_Marshal X (preferences w'))]
                   else [])"
    by blast
  have a: "AddFile (Suc k) X filePath w = Returned w'"
    using AddFile_on_regular(1)[OF assms(1,2)] r by simp
  have n: "new_events w w'
             = map (\<lambda>j. EvUpload (AllCloudStores (preferences w) ! j)
                             (CreateShares X fileBytes (share_id_of X w filePath) ?n ! j))
                    [0..<?n]
                @ (if share_id_of X w filePath \<noteq> ''.chasm''
                   then [EvWriteFile (chasmFilePath (preferences w))
                           (json_Marshal X (preferences w'))]
                   else [])"
    unfolding new_events_def t by (simp add: length_AllCloudStores)
  have u: "filter is_upload (new_events w w')
              = map (\<lambda>i. EvUpload (AllCloudStores (preferences w) ! i)
                            (CreateShares X fileBytes (share_id_of X w filePath) ?n ! i))
                  [0..<?n]"
    unfolding n by (rule filter_is_upload_uploads)
  have wr: "filter is_write (new_events w w')
              = (if share_id_of X w filePath \<noteq> ''.chasm''
                 then [EvWriteFile (chasmFilePath (preferences w))
                         (json_Marshal X (preferences w'))]
                 else [])"
    unfolding n by (simp add: filter_empty_conv)
  show ?thesis
    using a p u wr by blast
qed

text \<open>
  Claim C9. \<^verbatim>\<open>AddFile\<close> on a valid path that is a readable regular file, with \<open>n\<close> stores
  registered, asks for \<open>n\<close> shares; the split returns \<open>n\<close> (its contract), and the uploads
  of the call are, in this order, share \<open>i\<close> to store \<open>i\<close> for \<open>i\<close> from \<open>0\<close> to \<open>n - 1\<close>.
  The enumeration of the stores is the folder stores in the order of the preferences
  followed by the drive stores in the order of the preferences, and the call leaves it as
  it is.
\<close>

theorem AddFile_positional_uploads:
  assumes "IsValidPath X w filePath"
    and "fs_lookup (disk w) filePath = Some (Regular (Some fileBytes))"
    and "split_contract X"
  shows "\<exists>w'. AddFile (Suc k) X filePath w = Returned w'
          \<and> length (CreateShares X fileBytes (share_id_of X w filePath)
                      (RegisteredServices (preferences w)))
              = RegisteredServices (preferences w)
          \<and> filter is_upload (new_events w w')
              = map (\<lambda>i. EvUpload (AllCloudStores (preferences w) ! i)
                            (CreateShares X fileBytes (share_id_of X w filePath)
                               (RegisteredServices (preferences w)) ! i))
                  [0..<RegisteredServices (preferences w)]
          \<and> AllCloudStores (preferences w)
              = map FolderCS (FolderStores (preferences w))
                @ map GDriveCS (GDriveStores (preferences w))
          \<and> AllCloudStores (preferences w') = AllCloudStores (preferences w)"
proof -
  from AddFile_file_effect[OF assms, of k] obtain w' where
    a: "AddFile (Suc k) X filePath w = Returned w'"
    and p: "preferences w' = (preferences w)
                \<lparr>FileMap := AList.update filePath
                     \<lparr>SID = share_id_of X w filePath, Hash = SHA256Base64URL X fileBytes\<rparr>
                     (FileMap (preferences w))\<rparr>"
    and u: "filter is_upload (new_events w w')
              = map (\<lambda>i. EvUpload (AllCloudStores (preferences w) ! i)
                            (CreateShares X fileBytes (share_id_of X w filePath)
                               (RegisteredServices (preferences w)) ! i))
                  [0..<RegisteredServices (preferences w)]"
    by blast
  have len: "length (CreateShares X fileBytes (share_id_of X w filePath)
                      (RegisteredServices (preferences w)))
              = RegisteredServices (preferences w)"
    using assms(3) by (simp add: split_contract_def)
  have s: "AllCloudStores (preferences w') = AllCloudStores (preferences w)"
    by (simp add: p AllCloudStores_def)
  show ?thesis
    using a len u s by (intro exI[of _ w']) (simp add: AllCloudStores_def)
qed

theorem AddFile_positional_uploads_witness:
  "IsValidPath demo world0 ''/r/a''
   \<and> fs_lookup (disk world0) ''/r/a'' = Some (Regular (Some ''hello''))
   \<and> split_contract demo
   \<and> RegisteredServices (preferences world0) = 2
   \<and> (\<exists>w'. AddFile (Suc 0) demo ''/r/a'' world0 = Returned w'
          \<and> length (CreateShares demo ''hello'' (share_id_of demo world0 ''/r/a'')
                      (RegisteredServices (preferences world0)))
              = RegisteredServices (preferences world0)
          \<and> filter is_upload (new_events world0 w')
              = map (\<lambda>i. EvUpload (AllCloudStores (preferences world0) ! i)
                            (CreateShares demo ''hello'' (share_id_of demo world0 ''/r/a'')
                               (RegisteredServices (preferences world0)) ! i))
                  [0..<RegisteredServices (preferences world0)]
          \<and> AllCloudStores (preferences world0)
              = map FolderCS (FolderStores (preferences world0))
                @ map GDriveCS (GDriveStores (preferences world0))
          \<and> AllCloudStores (preferences w') = AllCloudStores (preferences world0))
   \<and> (case AddFile (Suc 0) demo ''/r/a'' world0 of
        Returned w' \<Rightarrow>
          filter is_upload (new_events world0 w')
            = [EvUpload (FolderCS ''A'') (Share ''s'' ''hello''),
               EvUpload (GDriveCS ''G'') (Share ''s'' ''hello'')]
      | _ \<Rightarrow> False)"
proof -
  have h1: "IsValidPath demo world0 ''/r/a''"
    by code_simp
  have h2: "fs_lookup (disk world0) ''/r/a'' = Some (Regular (Some ''hello''))"
    by code_simp
  have h3: "split_contract demo"
    by (simp add: split_contract_def demo_def)
  have h4: "RegisteredServices (preferences world0) = 2"
    by code_simp
  have h5: "(case AddFile (Suc 0) demo ''/r/a'' world0 of
        Returned w' \<Rightarrow>
          filter is_upload (new_events world0 w')
            = [EvUpload (FolderCS ''A'') (Share ''s'' ''hello''),
               EvUpload (GDriveCS ''G'') (Share ''s'' ''hello'')]
      | _ \<Rightarrow> False)"
    by code_simp
  from AddFile_positional_uploads [OF h1 h2 h3, of 0] h1 h2 h3 h4 h5
  show ?thesis by blast
qed

subsection \<open>The record of the preferences file\<close>

lemma split_slash_append:
  "split_slash acc (a @ slash # b) = split_slash acc a @ split_slash [] b"
  by (induction a arbitrary: acc) auto

lemma split_slash_no_slash: "slash \<notin> set b \<Longrightarrow> split_slash acc b = [acc @ b]"
  by (induction b arbitrary: acc) auto

lemma join_slash_snoc_nonempty: "x \<noteq> [] \<Longrightarrow> join_slash (ys @ [x]) \<noteq> []"
  by (induction ys rule: join_slash.induct) auto

lemma last_join_slash_snoc: "x \<noteq> [] \<Longrightarrow> last (join_slash (ys @ [x])) = last x"
proof (induction ys rule: join_slash.induct)
  case 1
  then show ?case by simp
next
  case (2 y)
  then show ?case by simp
next
  case (3 y z zs)
  then show ?case
    using join_slash_snoc_nonempty[of x "z # zs"] by simp
qed

lemma last_path_Clean_element:
  assumes "slash \<notin> set x" and "x \<noteq> []" and "x \<noteq> ''.''" and "x \<noteq> ''..''"
  shows "last (path_Clean (r @ slash # x)) = last x"
proof -
  have s: "split_slash [] (r @ slash # x) = split_slash [] r @ [x]"
    using assms(1) by (simp add: split_slash_append split_slash_no_slash)
  have f: "foldl (clean_step b) [] (split_slash [] (r @ slash # x))
             = x # foldl (clean_step b) [] (split_slash [] r)" for b
    using assms by (simp add: s clean_step_def)
  show ?thesis
    using assms(2) f
    by (simp add: path_Clean_def Let_def last_join_slash_snoc join_slash_snoc_nonempty)
qed

lemma last_path_Join_element:
  assumes "slash \<notin> set x" and "x \<noteq> []" and "x \<noteq> ''.''" and "x \<noteq> ''..''"
  shows "last (path_Join [r, x]) = last x"
proof (cases "r = []")
  case True
  have "split_slash [] x = [x]"
    using assms(1) split_slash_no_slash[of x "[]"] by simp
  moreover have "hd x \<noteq> slash"
    using assms(1,2) by (cases x) auto
  ultimately have "path_Clean x = x"
    using assms by (simp add: path_Clean_def Let_def clean_step_def)
  then show ?thesis using True assms(2) by (simp add: path_Join_def)
next
  case False
  then have "path_Join [r, x] = path_Clean (r @ slash # x)"
    by (simp add: path_Join_def)
  then show ?thesis using last_path_Clean_element[OF assms] by simp
qed

lemma chasm_paths_differ: "path_Join [r, chasmPrefFile] \<noteq> path_Join [r, chasmIgnoreFile]"
proof -
  have "last (path_Join [r, chasmPrefFile]) = last chasmPrefFile"
    by (rule last_path_Join_element) (simp_all add: chasmPrefFile_def slash_def)
  moreover have "last (path_Join [r, chasmIgnoreFile]) = last chasmIgnoreFile"
    by (rule last_path_Join_element) (simp_all add: chasmIgnoreFile_def slash_def)
  moreover have "last chasmPrefFile \<noteq> last chasmIgnoreFile"
    by (simp add: chasmPrefFile_def chasmIgnoreFile_def)
  ultimately show ?thesis by metis
qed

lemma os_MkdirAll_fields:
  "preferences (os_MkdirAll p w) = preferences w" "remote (os_MkdirAll p w) = remote w"
  "reachable (os_MkdirAll p w) = reachable w" "rng (os_MkdirAll p w) = rng w"
  "trace (os_MkdirAll p w) = trace w @ [EvMkdirAll p]"
  by (simp_all add: os_MkdirAll_def emit_def)

lemma CreateOrLoadChasmDir_new_root:
  assumes "ioutil_ReadFile (disk (os_MkdirAll r w)) (path_Join [r, chasmPrefFile]) = None"
  shows "map_of (FileMap (preferences (CreateOrLoadChasmDir X r w))) (path_Join [r, chasmPrefFile])
           = Some \<lparr>SID = chasmPrefFile, Hash = []\<rparr>"
  using assms chasm_paths_differ[of r]
  by (simp add: CreateOrLoadChasmDir_def Let_def Save_fields split_def WriteFile_fields
      say_fields set_FileMap_def split: option.splits)

text \<open>
  Claim C6, as amended. \<^verbatim>\<open>CreateOrLoadChasmDir\<close> on a root whose preferences file cannot
  be read records the preferences file under the reserved identifier with an empty
  fingerprint. \<^verbatim>\<open>AddFile\<close> on a path recorded under the reserved identifier keeps the
  identifier, stores the fingerprint of the bytes the file holds at that moment, and does
  not save the preferences (no file is written by the call).
\<close>

theorem metadata_record_fingerprint:
  "(ioutil_ReadFile (disk (os_MkdirAll r w0)) (path_Join [r, chasmPrefFile]) = None
      \<longrightarrow> map_of (FileMap (preferences (CreateOrLoadChasmDir X r w0))) (path_Join [r, chasmPrefFile])
            = Some \<lparr>SID = chasmPrefFile, Hash = []\<rparr>)
   \<and> (IsValidPath X w filePath
       \<and> fs_lookup (disk w) filePath = Some (Regular (Some fileBytes))
       \<and> map_of (FileMap (preferences w)) filePath = Some \<lparr>SID = chasmPrefFile, Hash = h\<rparr>
       \<and> split_contract X
      \<longrightarrow> (\<exists>w'. AddFile (Suc k) X filePath w = Returned w'
             \<and> map_of (FileMap (preferences w')) filePath
                 = Some \<lparr>SID = chasmPrefFile, Hash = SHA256Base64URL X fileBytes\<rparr>
             \<and> filter is_write (new_events w w') = []))"
proof (intro conjI impI)
  assume "ioutil_ReadFile (disk (os_MkdirAll r w0)) (path_Join [r, chasmPrefFile]) = None"
  then show "map_of (FileMap (preferences (CreateOrLoadChasmDir X r w0))) (path_Join [r, chasmPrefFile])
            = Some \<lparr>SID = chasmPrefFile, Hash = []\<rparr>"
    by (rule CreateOrLoadChasmDir_new_root)
next
  assume a: "IsValidPath X w filePath
       \<and> fs_lookup (disk w) filePath = Some (Regular (Some fileBytes))
       \<and> map_of (FileMap (preferences w)) filePath = Some \<lparr>SID = chasmPrefFile, Hash = h\<rparr>
       \<and> split_contract X"
  then have sid: "share_id_of X w filePath = ''.chasm''"
    by (simp add: share_id_of_def chasmPrefFile_def)
  from a AddFile_file_effect[of X w filePath fileBytes k] obtain w' where
    r: "AddFile (Suc k) X filePath w = Returned w'"
    and p: "preferences w' = (preferences w)
                \<lparr>FileMap := AList.update filePath
                     \<lparr>SID = share_id_of X w filePath, Hash = SHA256Base64URL X fileBytes\<rparr>
                     (FileMap (preferences w))\<rparr>"
    and wr: "filter is_write (new_events w w')
              = (if share_id_of X w filePath \<noteq> ''.chasm''
                 then [EvWriteFile (chasmFilePath (preferences w))
                         (json_Marshal X (preferences w'))]
                 else [])"
    by blast
  have "map_of (FileMap (preferences w')) filePath
          = Some \<lparr>SID = chasmPrefFile, Hash = SHA256Base64URL X fileBytes\<rparr>"
    by (simp add: p sid AList.update_conv' chasmPrefFile_def)
  moreover have "filter is_write (new_events w w') = []"
    using wr sid by simp
  ultimately show "\<exists>w'. AddFile (Suc k) X filePath w = Returned w'
             \<and> map_of (FileMap (preferences w')) filePath
                 = Some \<lparr>SID = chasmPrefFile, Hash = SHA256Base64URL X fileBytes\<rparr>
             \<and> filter is_write (new_events w w') = []"
    using r by blast
qed

theorem metadata_record_fingerprint_witness:
  "ioutil_ReadFile (disk (os_MkdirAll ''/r'' world_fresh)) (path_Join [''/r'', chasmPrefFile]) = None
   \<and> map_of (FileMap (preferences (CreateOrLoadChasmDir demo ''/r'' world_fresh)))
        (path_Join [''/r'', chasmPrefFile])
       = Some \<lparr>SID = chasmPrefFile, Hash = []\<rparr>
   \<and> IsValidPath demo world_created ''/r/.chasm''
   \<and> fs_lookup (disk world_created) ''/r/.chasm''
       = Some (Regular (Some (json_Marshal demo (preferences world_created))))
   \<and> map_of (FileMap (preferences world_created)) ''/r/.chasm''
       = Some \<lparr>SID = chasmPrefFile, Hash = []\<rparr>
   \<and> split_contract demo
   \<and> (\<exists>w'. AddFile (Suc 0) demo ''/r/.chasm'' world_created = Returned w'
         \<and> map_of (FileMap (preferences w')) ''/r/.chasm''
             = Some \<lparr>SID = chasmPrefFile,
                     Hash = SHA256Base64URL demo (json_Marshal demo (preferences world_created))\<rparr>
         \<and> filter is_write (new_events world_created w') = [])"
proof -
  have h1: "ioutil_ReadFile (disk (os_MkdirAll ''/r'' world_fresh))
              (path_Join [''/r'', chasmPrefFile]) = None"
    by code_simp
  have h2: "IsValidPath demo world_created ''/r/.chasm''"
    by code_simp
  have h3: "fs_lookup (disk world_created) ''/r/.chasm''
       = Some (Regular (Some (json_Marshal demo (preferences world_created))))"
    by code_simp
  have h4: "map_of (FileMap (preferences world_created)) ''/r/.chasm''
       = Some \<lparr>SID = chasmPrefFile, Hash = []\<rparr>"
    by code_simp
  have h5: "split_contract demo"
    by (simp add: split_contract_def demo_def)
  from metadata_record_fingerprint
         [of "''/r''" world_fresh demo world_created "''/r/.chasm''"
             "json_Marshal demo (preferences world_created)" "[]" 0]
       h1 h2 h3 h4 h5
  show ?thesis by blast
qed

subsection \<open>Restore, file by file\<close>

lemma collect_shares_eq:
  "collect_shares sid sps w
     = (map (piece sid) sps,
        length (filter (\<lambda>sp. sp sid \<noteq> None) sps),
        w\<lparr>trace := trace w
             @ map (\<lambda>sp. EvPrint (MsgSkippingShare sid)) (filter (\<lambda>sp. sp sid = None) sps)\<rparr>)"
proof (induction sps arbitrary: w)
  case Nil
  then show ?case by simp
next
  case (Cons sp sps)
  show ?case
  proof (cases "sp sid")
    case None
    then show ?thesis
      by (simp add: Cons.IH piece_def say_def emit_def)
  next
    case (Some d)
    then show ?thesis
      by (simp add: Cons.IH piece_def)
  qed
qed

lemma restoreShareID_eq:
  "restoreShareID X sid sps w
     = (if length (filter (\<lambda>sp. sp sid \<noteq> None) sps) < RegisteredServices (preferences w)
        then ([], w\<lparr>trace := trace w
                      @ map (\<lambda>sp. EvPrint (MsgSkippingShare sid)) (filter (\<lambda>sp. sp sid = None) sps)
                      @ [EvPrint (MsgNotEnoughShares sid)]\<rparr>)
        else (CombineShares X (map (piece sid) sps),
              w\<lparr>trace := trace w
                   @ map (\<lambda>sp. EvPrint (MsgSkippingShare sid)) (filter (\<lambda>sp. sp sid = None) sps)\<rparr>))"
  by (simp add: restoreShareID_def collect_shares_eq say_def emit_def)

lemma not_enough_eq:
  "not_enough sps w sid
     = (length (filter (\<lambda>sp. sp sid \<noteq> None) sps) < RegisteredServices (preferences w))"
  by (simp add: not_enough_def collect_shares_eq)

lemma candidate_cong:
  "RegisteredServices (preferences w) = RegisteredServices (preferences w')
     \<Longrightarrow> candidate X sps w fs = candidate X sps w' fs"
  by (simp add: candidate_def restoreShareID_eq)

lemma entry_cong:
  assumes "RegisteredServices (preferences w) = RegisteredServices (preferences w')"
  shows "entry_writes X sps w e = entry_writes X sps w' e"
    and "entry_reports X sps w e = entry_reports X sps w' e"
  using assms candidate_cong[OF assms]
  by (simp_all add: entry_writes_def entry_reports_def not_enough_eq)

lemma filter_skip_msgs [simp]:
  "filter is_write (map (\<lambda>sp. EvPrint (MsgSkippingShare sid)) xs) = []"
  "filter is_report (map (\<lambda>sp. EvPrint (MsgSkippingShare sid)) xs) = []"
  by (induction xs) auto

lemma restore_file_events:
  "\<exists>es. trace (restore_file X sps w e) = trace w @ es
        \<and> filter is_write es = entry_writes X sps w e
        \<and> filter is_report es = entry_reports X sps w e
        \<and> preferences (restore_file X sps w e) = preferences w"
proof -
  let ?sid = "SID (snd e)"
  let ?skips = "map (\<lambda>sp. EvPrint (MsgSkippingShare ?sid)) (filter (\<lambda>sp. sp ?sid = None) sps)"
  show ?thesis
  proof (cases "not_enough sps w ?sid")
    case True
    then have "trace (restore_file X sps w e)
                 = trace w @ (?skips @ [EvPrint (MsgNotEnoughShares ?sid)])"
      and "preferences (restore_file X sps w e) = preferences w"
      by (simp_all add: restore_file_def restoreShareID_eq not_enough_eq Let_def)
    moreover have "entry_writes X sps w e = []"
      using True
      by (simp add: entry_writes_def candidate_def restoreShareID_eq not_enough_eq)
    moreover have "entry_reports X sps w e = [EvPrint (MsgNotEnoughShares ?sid)]"
      using True by (simp add: entry_reports_def)
    ultimately show ?thesis
      by (intro exI[of _ "?skips @ [EvPrint (MsgNotEnoughShares ?sid)]"]) simp
  next
    case False
    let ?b = "CombineShares X (map (piece ?sid) sps)"
    let ?w1 = "w\<lparr>trace := trace w @ ?skips\<rparr>"
    have rs: "restoreShareID X ?sid sps w = (?b, ?w1)"
      using False by (simp add: restoreShareID_eq not_enough_eq)
    have cand: "candidate X sps w (snd e) = (if length ?b = 0 then None else Some ?b)"
      by (simp add: candidate_def rs)
    show ?thesis
    proof (cases "length ?b = 0")
      case True
      then have "trace (restore_file X sps w e) = trace w @ ?skips"
        and "preferences (restore_file X sps w e) = preferences w"
        by (simp_all add: restore_file_def rs Let_def)
      moreover have "entry_writes X sps w e = []" "entry_reports X sps w e = []"
        using True False by (simp_all add: entry_writes_def entry_reports_def cand)
      ultimately show ?thesis
        by (intro exI[of _ ?skips]) simp
    next
      case nonempty: False
      show ?thesis
      proof (cases "passes X (snd e) ?b")
        case False
        then have "trace (restore_file X sps w e)
                     = trace w @ (?skips @ [EvPrint (MsgInvalidSHA2 ?sid)])"
          and "preferences (restore_file X sps w e) = preferences w"
          using nonempty
          by (simp_all add: restore_file_def rs Let_def passes_def say_def emit_def)
        moreover have "entry_writes X sps w e = []"
          "entry_reports X sps w e = [EvPrint (MsgInvalidSHA2 ?sid)]"
          using nonempty False \<open>\<not> not_enough sps w ?sid\<close>
          by (simp_all add: entry_writes_def entry_reports_def cand)
        ultimately show ?thesis
          by (intro exI[of _ "?skips @ [EvPrint (MsgInvalidSHA2 ?sid)]"]) simp
      next
        case True
        let ?tail = "if fst (ioutil_WriteFile (fst e) ?b ?w1) then []
                     else [EvPrint (MsgErrorWriting (fst e))]"
        have "trace (restore_file X sps w e)
                     = trace w @ (?skips @ [EvWriteFile (fst e) ?b] @ ?tail)"
          and "preferences (restore_file X sps w e) = preferences w"
          using nonempty True
          by (simp_all add: restore_file_def rs Let_def passes_def split_def
                WriteFile_fields say_fields)
        moreover have "entry_writes X sps w e = [EvWriteFile (fst e) ?b]"
          "entry_reports X sps w e = []"
          using nonempty True \<open>\<not> not_enough sps w ?sid\<close>
          by (simp_all add: entry_writes_def entry_reports_def cand)
        ultimately show ?thesis
          by (intro exI[of _ "?skips @ [EvWriteFile (fst e) ?b] @ ?tail"]) simp
      qed
    qed
  qed
qed

lemma restore_files_events:
  "\<exists>es. trace (foldl (restore_file X sps) w entries) = trace w @ es
        \<and> filter is_write es = concat (map (entry_writes X sps w) entries)
        \<and> filter is_report es = concat (map (entry_reports X sps w) entries)
        \<and> preferences (foldl (restore_file X sps) w entries) = preferences w"
proof (induction entries arbitrary: w)
  case Nil
  then show ?case by simp
next
  case (Cons e entries)
  let ?w1 = "restore_file X sps w e"
  from restore_file_events[of X sps w e] obtain es1 where
    t1: "trace ?w1 = trace w @ es1"
    and w1: "filter is_write es1 = entry_writes X sps w e"
    and r1: "filter is_report es1 = entry_reports X sps w e"
    and p1: "preferences ?w1 = preferences w"
    by blast
  from Cons.IH[of ?w1] obtain es2 where
    t2: "trace (foldl (restore_file X sps) ?w1 entries) = trace ?w1 @ es2"
    and w2: "filter is_write es2 = concat (map (entry_writes X sps ?w1) entries)"
    and r2: "filter is_report es2 = concat (map (entry_reports X sps ?w1) entries)"
    and p2: "preferences (foldl (restore_file X sps) ?w1 entries) = preferences ?w1"
    by blast
  have c: "entry_writes X sps ?w1 = entry_writes X sps w"
          "entry_reports X sps ?w1 = entry_reports X sps w"
    using entry_cong[of ?w1 w X sps] p1 by auto
  show ?case
    using t1 t2 w1 w2 r1 r2 p1 p2 c
    by (intro exI[of _ "es1 @ es2"]) simp
qed

lemma restore_dirs_events:
  "trace (foldl restore_dir w dirs) = trace w @ map (\<lambda>d. EvMkdirAll (fst d)) dirs
   \<and> RegisteredServices (preferences (foldl restore_dir w dirs))
       = RegisteredServices (preferences w)"
proof (induction dirs arbitrary: w)
  case Nil
  then show ?case by simp
next
  case (Cons d dirs)
  have "trace (restore_dir w d) = trace w @ [EvMkdirAll (fst d)]"
    and "RegisteredServices (preferences (restore_dir w d)) = RegisteredServices (preferences w)"
    by (simp_all add: restore_dir_def set_DirMap_def os_MkdirAll_fields RegisteredServices_def)
  then show ?case using Cons.IH[of "restore_dir w d"] by simp
qed

lemma fetch_all_reachable:
  "\<forall>cs \<in> set stores. reachable w cs
     \<Longrightarrow> fetch_all stores w
           = (Some (map (remote w) stores), w\<lparr>trace := trace w @ map EvRestore stores\<rparr>)"
proof (induction stores arbitrary: w)
  case Nil
  then show ?case by simp
next
  case (Cons cs stores)
  let ?w1 = "emit (EvRestore cs) w"
  have "\<forall>c \<in> set stores. reachable ?w1 c"
    using Cons.prems by (simp add: emit_fields)
  from Cons.IH[OF this] show ?case
    using Cons.prems by (simp add: cs_Restore_def emit_def)
qed

lemma filter_EvRestore [simp]:
  "filter is_write (map EvRestore cs) = []"
  "filter is_report (map EvRestore cs) = []"
  by (induction cs) simp_all

lemma filter_EvMkdirAll [simp]:
  "filter is_write (map (\<lambda>d. EvMkdirAll (f d)) ds) = []"
  "filter is_report (map (\<lambda>d. EvMkdirAll (f d)) ds) = []"
  by (induction ds) simp_all






















subsection \<open>The setup gate\<close>

lemma cs_Delete_fields:
  "preferences (cs_Delete cs s w) = preferences w" "disk (cs_Delete cs s w) = disk w"
  "reachable (cs_Delete cs s w) = reachable w" "rng (cs_Delete cs s w) = rng w"
  "trace (cs_Delete cs s w) = trace w @ [EvDelete cs s]"
  by (simp_all add: cs_Delete_def emit_def)

lemma delete_all_fields:
  "preferences (foldl (\<lambda>v cs. cs_Delete cs sid v) w stores) = preferences w
   \<and> trace (foldl (\<lambda>v cs. cs_Delete cs sid v) w stores)
       = trace w @ map (\<lambda>cs. EvDelete cs sid) stores"
  by (induction stores arbitrary: w) (simp_all add: cs_Delete_fields)

lemma filter_EvDelete [simp]:
  "filter is_delete (map (\<lambda>cs. EvDelete cs sid) stores) = map (\<lambda>cs. EvDelete cs sid) stores"
  "filter is_write (map (\<lambda>cs. EvDelete cs sid) stores) = []"
  by (induction stores) simp_all

lemma DeleteFile_tracked_effect:
  assumes "map_of (FileMap (preferences w)) filePath = Some fileShare"
  shows "preferences (DeleteFile_tracked X filePath w)
           = (preferences w)\<lparr>FileMap := AList.delete filePath (FileMap (preferences w))\<rparr>"
    and "trace (DeleteFile_tracked X filePath w)
           = trace w @ map (\<lambda>cs. EvDelete cs (SID fileShare)) (AllCloudStores (preferences w))
             @ [EvWriteFile (chasmFilePath (preferences w))
                  (json_Marshal X (preferences (DeleteFile_tracked X filePath w))),
                EvPrint MsgDeletedShare]"
  using assms delete_all_fields[of "SID fileShare" w "AllCloudStores (preferences w)"]
  by (simp_all add: DeleteFile_tracked_def Let_def say_fields Save_fields chasmFilePath_def)

lemma Restore_calls_every_store:
  assumes reach: "\<forall>cs \<in> set (AllCloudStores (preferences w)). reachable w cs"
  shows "\<exists>es. trace (Restore X w) = trace w @ map EvRestore (AllCloudStores (preferences w)) @ es"
proof -
  let ?stores = "AllCloudStores (preferences w)"
  let ?sps = "map (remote w) ?stores"
  let ?w1 = "w\<lparr>trace := trace w @ map EvRestore ?stores\<rparr>"
  have f: "fetch_all ?stores w = (Some ?sps, ?w1)"
    using fetch_all_reachable[OF reach] by simp
  obtain b w2 where rs: "restoreShareID X chasmPrefFile ?sps ?w1 = (b, w2)"
    by (cases "restoreShareID X chasmPrefFile ?sps ?w1") auto
  then obtain ms where w2: "trace w2 = trace ?w1 @ ms"
    by (auto simp: restoreShareID_eq split: if_splits)
  show ?thesis
  proof (cases "json_Unmarshal X b")
    case None
    then have "Restore X w = say MsgCannotRestorePrefs w2"
      by (simp add: Restore_def f rs)
    then have "trace (Restore X w) = trace w @ map EvRestore ?stores
                 @ (ms @ [EvPrint MsgCannotRestorePrefs])"
      by (simp add: say_fields w2)
    then show ?thesis by blast
  next
    case (Some m)
    let ?w3 = "foldl restore_dir w2 (DirMap m)"
    let ?w4 = "foldl (restore_file X ?sps) ?w3 (FileMap m)"
    have R: "Restore X w = say MsgDone ?w4"
      by (simp add: Restore_def f rs Some Let_def)
    from restore_files_events[of X ?sps ?w3 "FileMap m"] obtain es4 where
      t4: "trace ?w4 = trace ?w3 @ es4" by blast
    have "trace (Restore X w) = trace w @ map EvRestore ?stores
            @ (ms @ map (\<lambda>d. EvMkdirAll (fst d)) (DirMap m) @ es4 @ [EvPrint MsgDone])"
      using restore_dirs_events[of w2 "DirMap m"] by (simp add: R say_fields t4 w2)
    then show ?thesis by blast
  qed
qed

text \<open>
  Claim C2, as amended. With fewer than two stores registered \<^verbatim>\<open>NeedSetup\<close> is true, and
  none of the three operations consults it or refuses. \<^verbatim>\<open>AddFile\<close> on a valid path that is
  a readable regular file returns with the file recorded under its identifier and
  fingerprint and with share \<open>i\<close> uploaded to store \<open>i\<close> for each registered store.
  \<^verbatim>\<open>DeleteFile\<close> on a valid path that is a tracked file and not a tracked directory asks
  every registered store to delete the share, removes the record and saves the
  preferences. \<^verbatim>\<open>Restore\<close>, when every registered store is reachable, begins by calling
  the restore capability of each.
\<close>

theorem NeedSetup_not_enforced:
  assumes "NeedSetup (preferences w)"
  shows "RegisteredServices (preferences w) < 2
       \<and> (IsValidPath X w filePath
           \<and> fs_lookup (disk w) filePath = Some (Regular (Some fileBytes))
           \<and> split_contract X
          \<longrightarrow> (\<exists>w'. AddFile (Suc k) X filePath w = Returned w'
                 \<and> map_of (FileMap (preferences w')) filePath
                     = Some \<lparr>SID = share_id_of X w filePath,
                             Hash = SHA256Base64URL X fileBytes\<rparr>
                 \<and> filter is_upload (new_events w w')
                     = map (\<lambda>i. EvUpload (AllCloudStores (preferences w) ! i)
                                   (CreateShares X fileBytes (share_id_of X w filePath)
                                      (RegisteredServices (preferences w)) ! i))
                         [0..<RegisteredServices (preferences w)]))
       \<and> (IsValidPath X w filePath
           \<and> map_of (DirMap (preferences w)) (path_Clean filePath) = None
           \<and> map_of (FileMap (preferences w)) filePath = Some fileShare
          \<longrightarrow> (\<exists>w'. DeleteFile (Suc k) X filePath w = Returned w'
                 \<and> map_of (FileMap (preferences w')) filePath = None
                 \<and> filter is_delete (new_events w w')
                     = map (\<lambda>cs. EvDelete cs (SID fileShare)) (AllCloudStores (preferences w))
                 \<and> filter is_write (new_events w w')
                     = [EvWriteFile (chasmFilePath (preferences w))
                          (json_Marshal X (preferences w'))]))
       \<and> ((\<forall>cs \<in> set (AllCloudStores (preferences w)). reachable w cs)
          \<longrightarrow> (\<exists>es. new_events w (Restore X w)
                        = map EvRestore (AllCloudStores (preferences w)) @ es))"
proof (intro conjI impI)
  show "RegisteredServices (preferences w) < 2"
    using assms by (simp add: NeedSetup_def)
next
  assume a: "IsValidPath X w filePath
           \<and> fs_lookup (disk w) filePath = Some (Regular (Some fileBytes))
           \<and> split_contract X"
  with AddFile_file_effect[of X w filePath fileBytes k] obtain w' where
    r: "AddFile (Suc k) X filePath w = Returned w'"
    and p: "preferences w' = (preferences w)
                \<lparr>FileMap := AList.update filePath
                     \<lparr>SID = share_id_of X w filePath, Hash = SHA256Base64URL X fileBytes\<rparr>
                     (FileMap (preferences w))\<rparr>"
    and u: "filter is_upload (new_events w w')
              = map (\<lambda>i. EvUpload (AllCloudStores (preferences w) ! i)
                            (CreateShares X fileBytes (share_id_of X w filePath)
                               (RegisteredServices (preferences w)) ! i))
                  [0..<RegisteredServices (preferences w)]"
    by blast
  have "map_of (FileMap (preferences w')) filePath
          = Some \<lparr>SID = share_id_of X w filePath, Hash = SHA256Base64URL X fileBytes\<rparr>"
    by (simp add: p AList.update_conv')
  with r u show "\<exists>w'. AddFile (Suc k) X filePath w = Returned w'
                 \<and> map_of (FileMap (preferences w')) filePath
                     = Some \<lparr>SID = share_id_of X w filePath,
                             Hash = SHA256Base64URL X fileBytes\<rparr>
                 \<and> filter is_upload (new_events w w')
                     = map (\<lambda>i. EvUpload (AllCloudStores (preferences w) ! i)
                                   (CreateShares X fileBytes (share_id_of X w filePath)
                                      (RegisteredServices (preferences w)) ! i))
                         [0..<RegisteredServices (preferences w)]"
    by blast
next
  assume a: "IsValidPath X w filePath
           \<and> map_of (DirMap (preferences w)) (path_Clean filePath) = None
           \<and> map_of (FileMap (preferences w)) filePath = Some fileShare"
  let ?w' = "DeleteFile_tracked X filePath w"
  have r: "DeleteFile (Suc k) X filePath w = Returned ?w'"
    using a by simp
  from a have m: "map_of (FileMap (preferences w)) filePath = Some fileShare" by simp
  have "map_of (FileMap (preferences ?w')) filePath = None"
    by (simp add: DeleteFile_tracked_effect(1)[OF m] AList.delete_conv')
  moreover have "filter is_delete (new_events w ?w')
                   = map (\<lambda>cs. EvDelete cs (SID fileShare)) (AllCloudStores (preferences w))"
    by (simp add: new_events_def DeleteFile_tracked_effect(2)[OF m])
  moreover have "filter is_write (new_events w ?w')
                     = [EvWriteFile (chasmFilePath (preferences w))
                          (json_Marshal X (preferences ?w'))]"
    by (simp add: new_events_def DeleteFile_tracked_effect(2)[OF m])
  ultimately show "\<exists>w'. DeleteFile (Suc k) X filePath w = Returned w'
                 \<and> map_of (FileMap (preferences w')) filePath = None
                 \<and> filter is_delete (new_events w w')
                     = map (\<lambda>cs. EvDelete cs (SID fileShare)) (AllCloudStores (preferences w))
                 \<and> filter is_write (new_events w w')
                     = [EvWriteFile (chasmFilePath (preferences w))
                          (json_Marshal X (preferences w'))]"
    using r by blast
next
  assume "\<forall>cs \<in> set (AllCloudStores (preferences w)). reachable w cs"
  from Restore_calls_every_store[OF this, of X] obtain es where
    "trace (Restore X w) = trace w @ map EvRestore (AllCloudStores (preferences w)) @ es"
    by blast
  then have "new_events w (Restore X w) = map EvRestore (AllCloudStores (preferences w)) @ es"
    by (simp add: new_events_def)
  then show "\<exists>es. new_events w (Restore X w)
                        = map EvRestore (AllCloudStores (preferences w)) @ es"
    by blast
qed

theorem NeedSetup_not_enforced_witness:
  "NeedSetup (preferences world_single_tracked)
   \<and> RegisteredServices (preferences world_single_tracked) < 2
   \<and> IsValidPath demo world_single_tracked ''/r/a''
   \<and> fs_lookup (disk world_single_tracked) ''/r/a'' = Some (Regular (Some ''hello''))
   \<and> split_contract demo
   \<and> (\<exists>w'. AddFile (Suc 0) demo ''/r/a'' world_single_tracked = Returned w'
         \<and> map_of (FileMap (preferences w')) ''/r/a''
             = Some \<lparr>SID = share_id_of demo world_single_tracked ''/r/a'',
                     Hash = SHA256Base64URL demo ''hello''\<rparr>
         \<and> filter is_upload (new_events world_single_tracked w')
             = map (\<lambda>i. EvUpload (AllCloudStores (preferences world_single_tracked) ! i)
                           (CreateShares demo ''hello''
                              (share_id_of demo world_single_tracked ''/r/a'')
                              (RegisteredServices (preferences world_single_tracked)) ! i))
                 [0..<RegisteredServices (preferences world_single_tracked)])
   \<and> map_of (DirMap (preferences world_single_tracked)) (path_Clean ''/r/a'') = None
   \<and> map_of (FileMap (preferences world_single_tracked)) ''/r/a''
       = Some \<lparr>SID = ''s'', Hash = ''#hello''\<rparr>
   \<and> (\<exists>w'. DeleteFile (Suc 0) demo ''/r/a'' world_single_tracked = Returned w'
         \<and> map_of (FileMap (preferences w')) ''/r/a'' = None
         \<and> filter is_delete (new_events world_single_tracked w')
             = map (\<lambda>cs. EvDelete cs (SID \<lparr>SID = ''s'', Hash = ''#hello''\<rparr>))
                 (AllCloudStores (preferences world_single_tracked))
         \<and> filter is_write (new_events world_single_tracked w')
             = [EvWriteFile (chasmFilePath (preferences world_single_tracked))
                  (json_Marshal demo (preferences w'))])
   \<and> list_all (reachable world_single_tracked)
        (AllCloudStores (preferences world_single_tracked))
   \<and> (\<exists>es. new_events world_single_tracked (Restore demo world_single_tracked)
              = map EvRestore (AllCloudStores (preferences world_single_tracked)) @ es)
   \<and> new_events world_single_tracked (Restore demo world_single_tracked)
       = [EvRestore (FolderCS ''A''), EvPrint (MsgSkippingShare ''.chasm''),
          EvPrint (MsgNotEnoughShares ''.chasm''), EvPrint MsgCannotRestorePrefs]"
proof -
  have h1: "NeedSetup (preferences world_single_tracked)"
    by code_simp
  have h2: "IsValidPath demo world_single_tracked ''/r/a''"
    by code_simp
  have h3: "fs_lookup (disk world_single_tracked) ''/r/a'' = Some (Regular (Some ''hello''))"
    by code_simp
  have h4: "split_contract demo"
    by (simp add: split_contract_def demo_def)
  have h5: "map_of (DirMap (preferences world_single_tracked)) (path_Clean ''/r/a'') = None"
    by code_simp
  have h6: "map_of (FileMap (preferences world_single_tracked)) ''/r/a''
       = Some \<lparr>SID = ''s'', Hash = ''#hello''\<rparr>"
    by code_simp
  have l7: "list_all (reachable world_single_tracked)
        (AllCloudStores (preferences world_single_tracked))"
    by code_simp
  then have h7: "\<forall>cs \<in> set (AllCloudStores (preferences world_single_tracked)).
                   reachable world_single_tracked cs"
    by (simp add: list_all_iff)
  have h8: "new_events world_single_tracked (Restore demo world_single_tracked)
       = [EvRestore (FolderCS ''A''), EvPrint (MsgSkippingShare ''.chasm''),
          EvPrint (MsgNotEnoughShares ''.chasm''), EvPrint MsgCannotRestorePrefs]"
    by code_simp
  note t = NeedSetup_not_enforced
             [OF h1, of demo "''/r/a''" "''hello''" 0 "\<lparr>SID = ''s'', Hash = ''#hello''\<rparr>"]
  from t have c0: "RegisteredServices (preferences world_single_tracked) < 2"
    by blast
  from t h2 h3 h4 have c1: "\<exists>w'. AddFile (Suc 0) demo ''/r/a'' world_single_tracked = Returned w'
         \<and> map_of (FileMap (preferences w')) ''/r/a''
             = Some \<lparr>SID = share_id_of demo world_single_tracked ''/r/a'',
                     Hash = SHA256Base64URL demo ''hello''\<rparr>
         \<and> filter is_upload (new_events world_single_tracked w')
             = map (\<lambda>i. EvUpload (AllCloudStores (preferences world_single_tracked) ! i)
                           (CreateShares demo ''hello''
                              (share_id_of demo world_single_tracked ''/r/a'')
                              (RegisteredServices (preferences world_single_tracked)) ! i))
                 [0..<RegisteredServices (preferences world_single_tracked)]"
    by blast
  from t h2 h5 h6 have c2: "\<exists>w'. DeleteFile (Suc 0) demo ''/r/a'' world_single_tracked = Returned w'
         \<and> map_of (FileMap (preferences w')) ''/r/a'' = None
         \<and> filter is_delete (new_events world_single_tracked w')
             = map (\<lambda>cs. EvDelete cs (SID \<lparr>SID = ''s'', Hash = ''#hello''\<rparr>))
                 (AllCloudStores (preferences world_single_tracked))
         \<and> filter is_write (new_events world_single_tracked w')
             = [EvWriteFile (chasmFilePath (preferences world_single_tracked))
                  (json_Marshal demo (preferences w'))]"
    by blast
  from t h7 have c3: "\<exists>es. new_events world_single_tracked (Restore demo world_single_tracked)
              = map EvRestore (AllCloudStores (preferences world_single_tracked)) @ es"
    by blast
  show ?thesis
    using h1 c0 h2 h3 h4 c1 h5 h6 c2 l7 c3 h8 by (intro conjI)
qed

end
